theory Spec2Isabelle
  imports Complex_Main
begin

section \<open>The multilateration tracker of mlat-server (mlat/server/mlattrack.py)\<close>

text \<open>
  Python floats are modelled as \<^typ>\<open>real\<close>: the literals \<open>2e-3\<close>, \<open>1.05\<close>, \<open>1e3\<close>,
  \<open>100e6\<close>, \<open>1e9\<close>, \<open>1.1\<close> are the rationals they denote and arithmetic is exact.
  A receiver object is modelled by its identity (the source compares receivers with
  \<open>is\<close>); its attributes \<open>user\<close>, \<open>position\<close> and \<open>distance\<close> are functions of that
  identity. Exceptions are values of the type \<open>error\<close>.
\<close>

datatype error = KeyError | IndexError | ZeroDivisionError | TypeError | DecodeError

type_synonym receiver = nat

text \<open>An element of a flattened component or of a cluster: \<open>(receiver, timestamp, variance)\<close>.\<close>

type_synonym entry = "receiver \<times> real \<times> real"

text \<open>The table \<open>receiver.distance\<close>: a dict, so a lookup of a missing key raises.\<close>

type_synonym distances = "receiver \<Rightarrow> receiver \<Rightarrow> real option"

text \<open>A normalized component: a dict \<open>receiver -> (variance, timestamps)\<close> in insertion order.\<close>

type_synonym component = "(receiver \<times> real \<times> real list) list"

subsection \<open>\<open>_cluster_timestamps\<close>\<close>

text \<open>Lines 290-294: flatten the component into a list of tuples.\<close>

definition flatten :: "component \<Rightarrow> entry list" where
  "flatten component =
     concat (map (\<lambda>(receiver, variance, timestamps).
                    map (\<lambda>timestamp. (receiver, timestamp, variance)) timestamps) component)"

text \<open>
  Lines 300-307: the rough grouping. The Python list \<open>groups\<close> holds the current \<open>group\<close>
  as its last element (the same list object); here \<open>groups\<close> holds the groups already
  closed and the current group is carried beside it as \<open>grp\<close> (the name \<open>group\<close> is taken in HOL).
\<close>

fun rough_groups :: "entry list \<Rightarrow> entry list \<Rightarrow> entry list list \<Rightarrow> entry list list" where
  "rough_groups [] grp groups = groups @ [grp]"
| "rough_groups (t # ts) grp groups =
     (if fst (snd t) - fst (snd (last grp)) > 2 / 1000
      then rough_groups ts [t] (groups @ [grp])
      else rough_groups ts (grp @ [t]) groups)"

text \<open>
  Lines 344-365: the strict test of one candidate \<open>(receiver, timestamp)\<close> against the
  members of the cluster so far. The result is \<open>(can_cluster, is_distinct)\<close>.
\<close>

fun check_cluster ::
  "distances \<Rightarrow> real \<Rightarrow> receiver \<Rightarrow> real \<Rightarrow> entry list \<Rightarrow> bool \<Rightarrow> error + (bool \<times> bool)" where
  "check_cluster dtab cair receiver timestamp [] is_distinct = Inr (True, is_distinct)"
| "check_cluster dtab cair receiver timestamp
       ((other_receiver, other_timestamp, other_variance) # cluster) is_distinct =
     (if other_receiver = receiver then Inr (False, is_distinct)
      else case dtab receiver other_receiver of
        None \<Rightarrow> Inl KeyError
      | Some d \<Rightarrow>
          if cair = 0 then Inl ZeroDivisionError
          else if \<bar>other_timestamp - timestamp\<bar> > (d * (105 / 100) + 1000) / cair
          then Inr (False, is_distinct)
          else check_cluster dtab cair receiver timestamp cluster
                 (if d < 1000 then False else is_distinct))"

text \<open>
  Lines 331-372: the backward scan \<open>for i in range(len(group) - 1, -1, -1)\<close>. The first
  numeric argument is \<open>i + 1\<close>; \<open>0\<close> means that the range is exhausted. The result is the
  group that remains, the cluster (in the order of the Python list: the seed first, then
  the members in the order they were accepted) and \<open>distinct_receivers\<close>.
  \<open>last_timestamp\<close> is assigned once, before the scan, and never inside it.
\<close>

fun scan ::
  "distances \<Rightarrow> real \<Rightarrow> real \<Rightarrow> nat \<Rightarrow> entry list \<Rightarrow> entry list \<Rightarrow> nat
     \<Rightarrow> error + (entry list \<times> entry list \<times> nat)" where
  "scan dtab cair last_timestamp 0 grp cluster distinct_receivers =
     Inr (grp, cluster, distinct_receivers)"
| "scan dtab cair last_timestamp (Suc i) grp cluster distinct_receivers =
     (if length grp \<le> i then Inl IndexError
      else case grp ! i of (receiver, timestamp, variance) \<Rightarrow>
        if last_timestamp - timestamp > 2 / 1000
        then Inr (grp, cluster, distinct_receivers)
        else (case check_cluster dtab cair receiver timestamp cluster True of
          Inl e \<Rightarrow> Inl e
        | Inr (can_cluster, is_distinct) \<Rightarrow>
            if can_cluster
            then scan dtab cair last_timestamp i (take i grp @ drop (Suc i) grp)
                   (cluster @ [grp ! i])
                   (if is_distinct then distinct_receivers + 1 else distinct_receivers)
            else scan dtab cair last_timestamp i grp cluster distinct_receivers))"

text \<open>
  Lines 323-372: one pass of the \<open>while\<close> body up to the end of the scan: pop the tail as
  the seed of a new cluster and scan the rest of the group backwards.
\<close>

definition form_cluster ::
  "distances \<Rightarrow> real \<Rightarrow> entry list \<Rightarrow> error + (entry list \<times> entry list \<times> nat)" where
  "form_cluster dtab cair grp =
     (let tail = last grp; group1 = butlast grp
      in scan dtab cair (fst (snd tail)) (length group1) group1 [tail] 1)"

lemma scan_length:
  "scan dtab cair lt n grp cluster dr = Inr (grp', cluster', dr')
     \<Longrightarrow> length grp' \<le> length grp"
proof (induction n arbitrary: grp cluster dr)
  case 0
  then show ?case by simp
next
  case (Suc n)
  show ?case
  proof (cases "length grp \<le> n")
    case True
    with Suc.prems show ?thesis by simp
  next
    case False
    obtain r t v where g: "grp ! n = (r, t, v)" by (cases "grp ! n") auto
    show ?thesis
    proof (cases "lt - t > 2 / 1000")
      case True
      with Suc.prems False g show ?thesis by simp
    next
      case far: False
      show ?thesis
      proof (cases "check_cluster dtab cair r t cluster True")
        case (Inl e)
        with Suc.prems False g far show ?thesis by simp
      next
        case (Inr p)
        obtain c d where p: "p = (c, d)" by (cases p) auto
        show ?thesis
        proof (cases c)
          case True
          with Suc.prems False g far Inr p
          have "scan dtab cair lt n (take n grp @ drop (Suc n) grp)
                  (cluster @ [grp ! n]) (if d then dr + 1 else dr) = Inr (grp', cluster', dr')"
            by simp
          from Suc.IH [OF this] show ?thesis by simp
        next
          case cf: False
          with Suc.prems False g far Inr p
          have "scan dtab cair lt n grp cluster dr = Inr (grp', cluster', dr')"
            by simp
          from Suc.IH [OF this] show ?thesis .
        qed
      qed
    qed
  qed
qed

lemma form_cluster_length:
  "form_cluster dtab cair grp = Inr (grp', cluster', dr') \<Longrightarrow> grp \<noteq> []
     \<Longrightarrow> length grp' < length grp"
  unfolding form_cluster_def Let_def
  by (drule scan_length) (cases grp rule: rev_cases, auto)

text \<open>
  Lines 322-376: the \<open>while len(group) >= 3\<close> loop for one group; \<open>clusters\<close> is the list
  it appends to.
\<close>

function cluster_group ::
  "distances \<Rightarrow> real \<Rightarrow> nat \<Rightarrow> entry list \<Rightarrow> (nat \<times> entry list) list
     \<Rightarrow> error + (nat \<times> entry list) list" where
  "cluster_group dtab cair min_receivers grp clusters =
     (if length grp \<ge> 3
      then case form_cluster dtab cair grp of
        Inl e \<Rightarrow> Inl e
      | Inr (grp', cluster, distinct_receivers) \<Rightarrow>
          cluster_group dtab cair min_receivers grp'
            (if distinct_receivers \<ge> min_receivers
             then clusters @ [(distinct_receivers, rev cluster)]
             else clusters)
      else Inr clusters)"
  by pat_completeness auto
termination
proof (relation "measure (\<lambda>(dtab, cair, min_receivers, grp, clusters). length grp)")
  show "wf (measure (\<lambda>(dtab, cair, min_receivers, grp, clusters). length grp))"
    by simp
next
  fix dtab cair min_receivers grp clusters x2 and x1 :: "entry list" and x2a x1a x2b
  assume "3 \<le> length grp" "form_cluster dtab cair grp = Inr x2"
    "(x1, x2a) = x2" "(x1a, x2b) = x2a"
  then have "length x1 < length grp"
    using form_cluster_length [of dtab cair grp x1 x1a x2b] by (cases "grp = []") auto
  then show "((dtab, cair, min_receivers, x1,
               if min_receivers \<le> x2b then clusters @ [(x2b, rev x1a)] else clusters),
              dtab, cair, min_receivers, grp, clusters)
             \<in> measure (\<lambda>(dtab, cair, min_receivers, grp, clusters). length grp)"
    by simp
qed

declare cluster_group.simps [simp del]

text \<open>Line 317: \<open>for group in groups\<close>.\<close>

fun cluster_groups ::
  "distances \<Rightarrow> real \<Rightarrow> nat \<Rightarrow> entry list list \<Rightarrow> (nat \<times> entry list) list
     \<Rightarrow> error + (nat \<times> entry list) list" where
  "cluster_groups dtab cair min_receivers [] clusters = Inr clusters"
| "cluster_groups dtab cair min_receivers (grp # groups) clusters =
     (case cluster_group dtab cair min_receivers grp clusters of
        Inl e \<Rightarrow> Inl e
      | Inr clusters' \<Rightarrow> cluster_groups dtab cair min_receivers groups clusters')"

text \<open>
  Lines 286-378. \<open>flat_component[0]\<close> raises \<open>IndexError\<close> when the component holds no
  timestamp at all. \<open>list.sort\<close> is stable, as \<^const>\<open>sort_key\<close> is.
\<close>

definition cluster_timestamps ::
  "distances \<Rightarrow> real \<Rightarrow> component \<Rightarrow> nat \<Rightarrow> error + (nat \<times> entry list) list" where
  "cluster_timestamps dtab cair component min_receivers =
     (case sort_key (\<lambda>t. fst (snd t)) (flatten component) of
        [] \<Rightarrow> Inl IndexError
      | t0 # ts \<Rightarrow> cluster_groups dtab cair min_receivers (rough_groups ts [t0] []) [])"

subsection \<open>The state \<open>_resolve\<close> works on\<close>

type_synonym message = string
type_synonym vec3 = "real \<times> real \<times> real"
type_synonym cov3 = "vec3 \<times> vec3 \<times> vec3"
type_synonym timestamp_map = "(receiver \<times> real list) list"

text \<open>What \<open>modes.message.decode\<close> returns, as far as \<open>_resolve\<close> reads it.\<close>

record decoded_message =
  dec_address :: nat
  dec_altitude :: "int option"
  dec_squawk :: "string option"
  dec_callsign :: "string option"

text \<open>Class \<open>MessageGroup\<close>, lines 40-45, without the timer handle.\<close>

record MessageGroup =
  group_message :: message
  group_first_seen :: real
  group_copies :: "(receiver \<times> real) list"

text \<open>
  The arguments of one call of \<open>ac.kalman.update\<close>: first_seen, cluster, altitude,
  altitude_error, ecef, ecef_cov, distinct. The smoother is outside this module; its
  state is modelled by the calls it has received.
\<close>

type_synonym kalman_update =
  "real \<times> entry list \<times> real option \<times> real option \<times> vec3 \<times> cov3 option \<times> nat"

text \<open>
  The fields of a tracked aircraft that \<open>_resolve\<close> reads and writes. The three
  \<open>last_result\<close> fields beside the position are read only when the position is set, and
  \<open>last_altitude_time\<close> only when the altitude is set; each is written together with it.
\<close>

record aircraft =
  ac_altitude :: "int option"
  ac_last_altitude_time :: real
  ac_squawk :: "string option"
  ac_callsign :: "string option"
  ac_last_result_position :: "vec3 option"
  ac_last_result_var :: real
  ac_last_result_distinct :: nat
  ac_last_result_time :: real
  ac_kalman :: "kalman_update list"

text \<open>
  The arguments every output handler is called with: first_seen, address, ecef, ecef_cov,
  the receivers of the cluster, distinct, and the smoother.
\<close>

type_synonym handler_call =
  "real \<times> nat \<times> vec3 \<times> cov3 option \<times> receiver list \<times> nat \<times> kalman_update list"

text \<open>
  One line of the pseudorange file, before rounding and JSON formatting: icao, time,
  ecef, ecef_cov, distinct, the cluster state (receiver position, timestamp relative
  to the first member, variance) and, when known, altitude and altitude error.
\<close>

type_synonym pseudorange =
  "nat \<times> real \<times> vec3 \<times> cov3 \<times> nat \<times> (vec3 \<times> real \<times> real) list \<times> (real \<times> real) option"

text \<open>The calls \<open>_resolve\<close> makes to the decoder, the clock normalizer and the solver.\<close>

datatype call =
  Decode message
| Normalize timestamp_map
| Solve "entry list" "real option" "real option" vec3

text \<open>
  The tracker object with the registries it reaches: \<open>self.pending\<close>,
  \<open>self.blacklist\<close>, \<open>self.tracker.aircraft\<close>, what the output handlers have been
  called with, the pseudorange file (\<open>None\<close> when not configured), and the record of the
  external calls made so far.
\<close>

record tracker =
  pending :: "message \<Rightarrow> MessageGroup option"
  blacklist :: "string set"
  aircraft :: "nat \<Rightarrow> aircraft option"
  outputs :: "handler_call list"
  pseudorange_file :: "pseudorange list option"
  calls :: "call list"

text \<open>
  What this module takes from the rest of the program: the decoder, the clock normalizer,
  the solver, the attributes of the receivers, and the constants \<open>constants.Cair\<close>,
  \<open>constants.FTOM\<close> and \<open>config.MLAT_DELAY\<close>.
\<close>

record externals =
  message_decode :: "message \<Rightarrow> error + decoded_message"
  clocknorm_normalize :: "timestamp_map \<Rightarrow> component list"
  solver_solve ::
    "entry list \<Rightarrow> real option \<Rightarrow> real option \<Rightarrow> vec3 \<Rightarrow> (vec3 \<times> cov3 option) option"
  user :: "receiver \<Rightarrow> string"
  position :: "receiver \<Rightarrow> vec3"
  distance :: distances
  Cair :: real
  FTOM :: real
  MLAT_DELAY :: real

text \<open>\<open>numpy.trace\<close> of a 3 by 3 matrix.\<close>

fun numpy_trace :: "cov3 \<Rightarrow> real" where
  "numpy_trace ((a, _, _), (_, b, _), (_, _, c)) = a + b + c"

subsection \<open>\<open>receiver_mlat\<close>\<close>

text \<open>Lines 83-93; \<open>wallclock\<close> is the value of \<open>time.time()\<close>.\<close>

definition receiver_mlat :: "tracker \<Rightarrow> real \<Rightarrow> receiver \<Rightarrow> real \<Rightarrow> message \<Rightarrow> tracker" where
  "receiver_mlat s wallclock receiver timestamp msg =
     (let grp = (case pending s msg of
                   None \<Rightarrow> \<lparr>group_message = msg, group_first_seen = wallclock, group_copies = []\<rparr>
                 | Some g \<Rightarrow> g)
      in s\<lparr>pending := (pending s)
             (msg \<mapsto> grp\<lparr>group_copies := group_copies grp @ [(receiver, timestamp)]\<rparr>)\<rparr>)"

subsection \<open>The steps of \<open>_resolve\<close>\<close>

text \<open>Lines 113-121: update the tracker with newly seen altitudes, squawks, callsigns.\<close>

definition refresh :: "real \<Rightarrow> decoded_message \<Rightarrow> aircraft \<Rightarrow> aircraft" where
  "refresh now decoded ac =
     (let ac = (case dec_altitude decoded of
                  None \<Rightarrow> ac
                | Some a \<Rightarrow> ac\<lparr>ac_altitude := Some a, ac_last_altitude_time := now\<rparr>);
          ac = (case dec_squawk decoded of None \<Rightarrow> ac | Some q \<Rightarrow> ac\<lparr>ac_squawk := Some q\<rparr>);
          ac = (case dec_callsign decoded of None \<Rightarrow> ac | Some c \<Rightarrow> ac\<lparr>ac_callsign := Some c\<rparr>)
      in ac)"

text \<open>
  Lines 124-133: find the old result. The value is \<open>(last_result_position,
  last_result_var, last_result_distinct, elapsed)\<close>.
\<close>

definition old_result :: "real \<Rightarrow> aircraft \<Rightarrow> vec3 option \<times> real \<times> nat \<times> real" where
  "old_result now ac =
     (if ac_last_result_position ac = None \<or> now - ac_last_result_time ac > 120
      then (None, 1000000000, 0, 120)
      else (ac_last_result_position ac, ac_last_result_var ac, ac_last_result_distinct ac,
            now - ac_last_result_time ac))"

text \<open>
  Lines 136-147: find the altitude. The value is \<open>(altitude, altitude_error,
  min_receivers)\<close>.
\<close>

definition find_altitude :: "real \<Rightarrow> real \<Rightarrow> aircraft \<Rightarrow> real option \<times> real option \<times> nat" where
  "find_altitude ftom now ac =
     (case ac_altitude ac of
        None \<Rightarrow> (None, None, 4)
      | Some a \<Rightarrow>
          (let altitude = real_of_int a * ftom;
               altitude_error = (250 + (now - ac_last_altitude_time ac) * 70) * ftom
           in (Some altitude, Some altitude_error, if altitude_error < 1000 then 3 else 4)))"

text \<open>Line 153: \<open>timestamp_map.setdefault(receiver, []).append(timestamp)\<close>.\<close>

fun setdefault_append :: "receiver \<Rightarrow> real \<Rightarrow> timestamp_map \<Rightarrow> timestamp_map" where
  "setdefault_append receiver timestamp [] = [(receiver, [timestamp])]"
| "setdefault_append receiver timestamp ((r, ts) # m) =
     (if r = receiver then (r, ts @ [timestamp]) # m
      else (r, ts) # setdefault_append receiver timestamp m)"

text \<open>Lines 150-153: construct a map of receiver to list of timestamps.\<close>

fun build_timestamp_map ::
  "(receiver \<Rightarrow> string) \<Rightarrow> string set \<Rightarrow> (receiver \<times> real) list \<Rightarrow> timestamp_map
     \<Rightarrow> timestamp_map" where
  "build_timestamp_map usr bl [] m = m"
| "build_timestamp_map usr bl ((receiver, timestamp) # cs) m =
     build_timestamp_map usr bl cs
       (if usr receiver \<notin> bl then setdefault_append receiver timestamp m else m)"

text \<open>Lines 173-176: cluster every component that has at least \<open>min_receivers\<close> receivers.\<close>

fun collect_clusters ::
  "distances \<Rightarrow> real \<Rightarrow> nat \<Rightarrow> component list \<Rightarrow> (nat \<times> entry list) list
     \<Rightarrow> error + (nat \<times> entry list) list" where
  "collect_clusters dtab cair min_receivers [] clusters = Inr clusters"
| "collect_clusters dtab cair min_receivers (component # components) clusters =
     (if length component \<ge> min_receivers
      then (case cluster_timestamps dtab cair component min_receivers of
              Inl e \<Rightarrow> Inl e
            | Inr cs \<Rightarrow> collect_clusters dtab cair min_receivers components (clusters @ cs))
      else collect_clusters dtab cair min_receivers components clusters)"

text \<open>
  Lines 184-222: the loop \<open>while clusters and not result\<close>. The list argument is the
  stack of clusters with its top first: \<open>clusters.pop()\<close> takes the last element of the
  sorted Python list, which is the head here. The value is the list of calls made and either
  an exception, or \<open>None\<close> (no result), or the accepted \<open>(ecef, ecef_cov, var_est,
  distinct, cluster)\<close>. The seed \<open>cluster[0][0].position\<close> is evaluated only without an
  old position.
\<close>

type_synonym accepted = "vec3 \<times> cov3 option \<times> real \<times> nat \<times> entry list"

text \<open>
  Line 199: the position the solver starts from,
  \<open>last_result_position if last_result_position else cluster[0][0].position\<close>.
\<close>

definition seed_position :: "externals \<Rightarrow> vec3 option \<Rightarrow> entry list \<Rightarrow> error + vec3" where
  "seed_position E last_result_position cluster =
     (case last_result_position of
        Some p \<Rightarrow> Inr p
      | None \<Rightarrow> (case cluster of
                   [] \<Rightarrow> Inl IndexError
                 | t # _ \<Rightarrow> Inr (position E (fst t))))"

text \<open>Lines 203-207: estimate the error.\<close>

definition var_estimate :: "cov3 option \<Rightarrow> real" where
  "var_estimate ecef_cov =
     (case ecef_cov of
        Some c \<Rightarrow> numpy_trace c
      | None \<Rightarrow> 100000000)"

fun select ::
  "externals \<Rightarrow> real \<Rightarrow> vec3 option \<Rightarrow> real \<Rightarrow> nat \<Rightarrow> real option \<Rightarrow> real option
     \<Rightarrow> (nat \<times> entry list) list \<Rightarrow> call list \<Rightarrow> call list \<times> (error + accepted option)" where
  "select E elapsed last_result_position last_result_var last_result_distinct
       altitude altitude_error [] made = (made, Inr None)"
| "select E elapsed last_result_position last_result_var last_result_distinct
       altitude altitude_error ((n_distinct, cluster) # clusters) made =
     (if elapsed < 10 \<and> n_distinct < last_result_distinct then (made, Inr None)
      else if elapsed < MLAT_DELAY E - 1 / 2 \<and> n_distinct = last_result_distinct
      then (made, Inr None)
      else
        (let cluster = sort_key (\<lambda>t. fst (snd t)) cluster in
         (case seed_position E last_result_position cluster of
            Inl e \<Rightarrow> (made, Inl e)
          | Inr seed \<Rightarrow>
              (let made = made @ [Solve cluster altitude altitude_error seed] in
               (case solver_solve E cluster altitude altitude_error seed of
                  None \<Rightarrow>
                    select E elapsed last_result_position last_result_var
                      last_result_distinct altitude altitude_error clusters made
                | Some (ecef, ecef_cov) \<Rightarrow>
                    (let var_est = var_estimate ecef_cov
                     in if var_est > 100000000
                        then select E elapsed last_result_position last_result_var
                               last_result_distinct altitude altitude_error clusters made
                        else if elapsed < 2 \<and> var_est > last_result_var * (11 / 10)
                        then select E elapsed last_result_position last_result_var
                               last_result_distinct altitude altitude_error clusters made
                        else (made, Inr (Some (ecef, ecef_cov, var_est, n_distinct, cluster)))))))))"

text \<open>
  Lines 227-283: store the result, feed the smoother, call the output handlers and write
  the pseudorange line. The logging of lines 235-243 has no effect on the state and is
  left out. With a pseudorange file, \<open>cluster[0][1]\<close> raises on an empty cluster and
  \<open>ecef_cov[0, 0]\<close> raises when the solver gave no covariance, after the aircraft has
  been updated and the handlers have run. \<open>altitude\<close> and \<open>altitude_error\<close> come from
  the step of lines 136-147, which sets both or neither.
\<close>

definition commit ::
  "externals \<Rightarrow> real \<Rightarrow> tracker \<Rightarrow> MessageGroup \<Rightarrow> decoded_message \<Rightarrow> aircraft
     \<Rightarrow> real option \<Rightarrow> real option \<Rightarrow> accepted \<Rightarrow> tracker \<times> error option" where
  "commit E now s grp decoded ac altitude altitude_error result =
     (case result of (ecef, ecef_cov, var_est, n_distinct, cluster) \<Rightarrow>
       (let ac = ac\<lparr>ac_last_result_position := Some ecef,
                    ac_last_result_var := var_est,
                    ac_last_result_distinct := n_distinct,
                    ac_last_result_time := now\<rparr>;
            ac = ac\<lparr>ac_kalman := ac_kalman ac @
                    [(group_first_seen grp, cluster, altitude, altitude_error,
                      ecef, ecef_cov, n_distinct)]\<rparr>;
            s = s\<lparr>aircraft := (aircraft s)(dec_address decoded \<mapsto> ac)\<rparr>;
            s = s\<lparr>outputs := outputs s @
                    [(group_first_seen grp, dec_address decoded, ecef, ecef_cov,
                      map fst cluster, n_distinct, ac_kalman ac)]\<rparr>
        in (case pseudorange_file s of
              None \<Rightarrow> (s, None)
            | Some written \<Rightarrow>
                (case cluster of
                   [] \<Rightarrow> (s, Some IndexError)
                 | first # _ \<Rightarrow>
                     (case ecef_cov of
                        None \<Rightarrow> (s, Some TypeError)
                      | Some cov \<Rightarrow>
                          (s\<lparr>pseudorange_file := Some (written @
                               [(dec_address decoded, group_first_seen grp, ecef, cov, n_distinct,
                                 map (\<lambda>(receiver, timestamp, variance).
                                        (position E receiver,
                                         (timestamp - fst (snd first)) * 1000000,
                                         variance * 1000000000000)) cluster,
                                 (case (altitude, altitude_error) of
                                    (Some a, Some e) \<Rightarrow> Some (a, e)
                                  | _ \<Rightarrow> None))])\<rparr>,
                           None))))))"

text \<open>
  Lines 183-185: \<open>clusters.sort(key=operator.itemgetter(0))\<close> followed by \<open>pop()\<close> from
  the end: the stack of clusters with the one popped first at the head.
\<close>

definition sorted_stack :: "(nat \<times> entry list) list \<Rightarrow> (nat \<times> entry list) list" where
  "sorted_stack clusters = rev (sort_key fst clusters)"

text \<open>
  Lines 123-283, for an aircraft \<open>ac0\<close> found in the registry. The aircraft object is
  mutated in place, so the refreshed aircraft is in the registry on every path.
\<close>

definition resolve_aircraft ::
  "externals \<Rightarrow> real \<Rightarrow> tracker \<Rightarrow> MessageGroup \<Rightarrow> decoded_message \<Rightarrow> aircraft
     \<Rightarrow> tracker \<times> error option" where
  "resolve_aircraft E now s grp decoded ac0 =
     (let ac = refresh now decoded ac0;
          s = s\<lparr>aircraft := (aircraft s)(dec_address decoded \<mapsto> ac)\<rparr>
      in (case old_result now ac of
            (last_result_position, last_result_var, last_result_distinct, elapsed) \<Rightarrow>
          (case find_altitude (FTOM E) now ac of
            (altitude, altitude_error, min_receivers) \<Rightarrow>
          (let timestamp_map = build_timestamp_map (user E) (blacklist s) (group_copies grp) []
           in if length timestamp_map < min_receivers then (s, None)
              else if elapsed < 15 \<and> length timestamp_map < last_result_distinct then (s, None)
              else if elapsed < 2 \<and> length timestamp_map = last_result_distinct then (s, None)
              else
                (let s = s\<lparr>calls := calls s @ [Normalize timestamp_map]\<rparr>;
                     components = clocknorm_normalize E timestamp_map
                 in (case collect_clusters (distance E) (Cair E) min_receivers components [] of
                       Inl e \<Rightarrow> (s, Some e)
                     | Inr clusters \<Rightarrow>
                         if clusters = [] then (s, None)
                         else
                           (case select E elapsed last_result_position last_result_var
                                   last_result_distinct altitude altitude_error
                                   (sorted_stack clusters) (calls s) of
                              (made, Inl e) \<Rightarrow> (s\<lparr>calls := made\<rparr>, Some e)
                            | (made, Inr None) \<Rightarrow> (s\<lparr>calls := made\<rparr>, None)
                            | (made, Inr (Some result)) \<Rightarrow>
                                commit E now (s\<lparr>calls := made\<rparr>) grp decoded ac
                                  altitude altitude_error result)))))))"

text \<open>
  Lines 95-283. The value is the state after the call and the exception that left it,
  if any. \<open>del self.pending[group.message]\<close> raises when the key is missing.
\<close>

definition resolve :: "externals \<Rightarrow> real \<Rightarrow> tracker \<Rightarrow> MessageGroup \<Rightarrow> tracker \<times> error option" where
  "resolve E now s grp =
     (case pending s (group_message grp) of
        None \<Rightarrow> (s, Some KeyError)
      | Some _ \<Rightarrow>
          (let s = s\<lparr>pending := (pending s)(group_message grp := None)\<rparr>
           in if length (group_copies grp) < 3 then (s, None)
              else
                (let s = s\<lparr>calls := calls s @ [Decode (group_message grp)]\<rparr>
                 in (case message_decode E (group_message grp) of
                       Inl e \<Rightarrow> (s, Some e)
                     | Inr decoded \<Rightarrow>
                         (case aircraft s (dec_address decoded) of
                            None \<Rightarrow> (s, None)
                          | Some ac \<Rightarrow> resolve_aircraft E now s grp decoded ac)))))"

section \<open>Notions used in the statements\<close>

text \<open>
  The feasibility bound of line 352 for a candidate \<open>x\<close> against a member \<open>y\<close> that is
  already in the cluster: different receivers, a known distance, and a timestamp
  difference of at most \<open>(d * 1.05 + 1e3) / Cair\<close>.
\<close>

definition compat :: "distances \<Rightarrow> real \<Rightarrow> entry \<Rightarrow> entry \<Rightarrow> bool" where
  "compat dtab cair x y \<longleftrightarrow>
     fst x \<noteq> fst y \<and>
     (case dtab (fst x) (fst y) of
        None \<Rightarrow> False
      | Some d \<Rightarrow> \<bar>fst (snd x) - fst (snd y)\<bar> \<le> (d * (105 / 100) + 1000) / cair)"

text \<open>
  A kept cluster is in ascending order again, so each member was accepted after all the
  members that follow it, and was tested against each of them.
\<close>

fun feasible :: "distances \<Rightarrow> real \<Rightarrow> entry list \<Rightarrow> bool" where
  "feasible dtab cair [] = True"
| "feasible dtab cair (x # xs) =
     ((\<forall>y \<in> set xs. compat dtab cair x y) \<and> feasible dtab cair xs)"

text \<open>Line 360: the receivers of \<open>x\<close> and \<open>y\<close> are closer than 1 km.\<close>

definition near :: "distances \<Rightarrow> entry \<Rightarrow> entry \<Rightarrow> bool" where
  "near dtab x y = (case dtab (fst x) (fst y) of None \<Rightarrow> False | Some d \<Rightarrow> d < 1000)"

text \<open>
  The distinct-receiver count as the specification words it: the seed counts, and a
  later member counts unless its receiver is within 1 km of the receiver of a member
  that was in the cluster before it.
\<close>

fun distinct_count :: "distances \<Rightarrow> entry list \<Rightarrow> nat" where
  "distinct_count dtab [] = 0"
| "distinct_count dtab [seed] = 1"
| "distinct_count dtab (x # y # rest) =
     (if \<exists>z \<in> set (y # rest). near dtab x z then 0 else 1)
       + distinct_count dtab (y # rest)"

text \<open>
  The scan as the specification words it, with the cutoff taken against the most
  recently accepted member: the reference advances with each accepted candidate.
\<close>

fun scan_advancing ::
  "distances \<Rightarrow> real \<Rightarrow> real \<Rightarrow> nat \<Rightarrow> entry list \<Rightarrow> entry list \<Rightarrow> nat
     \<Rightarrow> error + (entry list \<times> entry list \<times> nat)" where
  "scan_advancing dtab cair last_timestamp 0 grp cluster distinct_receivers =
     Inr (grp, cluster, distinct_receivers)"
| "scan_advancing dtab cair last_timestamp (Suc i) grp cluster distinct_receivers =
     (if length grp \<le> i then Inl IndexError
      else case grp ! i of (receiver, timestamp, variance) \<Rightarrow>
        if last_timestamp - timestamp > 2 / 1000
        then Inr (grp, cluster, distinct_receivers)
        else (case check_cluster dtab cair receiver timestamp cluster True of
          Inl e \<Rightarrow> Inl e
        | Inr (can_cluster, is_distinct) \<Rightarrow>
            if can_cluster
            then scan_advancing dtab cair timestamp i (take i grp @ drop (Suc i) grp)
                   (cluster @ [grp ! i])
                   (if is_distinct then distinct_receivers + 1 else distinct_receivers)
            else scan_advancing dtab cair last_timestamp i grp cluster distinct_receivers))"

text \<open>Concrete receivers, components and groups on which the theorems are exercised.\<close>

definition spread :: distances where
  "spread r r' = (if r = r' then None else Some 30000)"

definition colocated :: distances where
  "colocated r r' =
     (if r = r' then None
      else if (r = 4 \<and> r' = 3) \<or> (r = 3 \<and> r' = 4) then Some 500
      else Some 30000)"

definition far_apart :: distances where
  "far_apart r r' = (if r = r' then None else Some 800000)"

definition three_receivers :: component where
  "three_receivers = [(1, 0, [1 / 10000]), (2, 0, [5 / 100000]), (3, 0, [0])]"

definition four_receivers :: component where
  "four_receivers =
     [(1, 0, [1 / 10000]), (2, 0, [5 / 100000]), (3, 0, [2 / 100000]), (4, 0, [18 / 1000000])]"

definition long_group :: "entry list" where
  "long_group = [(3, 5 / 10000, 0), (2, 15 / 10000, 0), (1, 30 / 10000, 0)]"

text \<open>
  A decoder, normalizer and solver to run \<open>_resolve\<close> on: the decoder reads address 7
  with altitude and callsign, the normalizer puts all receivers in one component with
  variance 0, and the solver returns a position without a covariance.
\<close>

definition demo_decoded :: decoded_message where
  "demo_decoded = \<lparr>dec_address = 7, dec_altitude = Some 30000, dec_squawk = None,
                    dec_callsign = Some ''TEST''\<rparr>"

definition demo_externals :: externals where
  "demo_externals =
     \<lparr>message_decode = (\<lambda>m. Inr demo_decoded),
      clocknorm_normalize = (\<lambda>tm. [map (\<lambda>(r, ts). (r, 0, ts)) tm]),
      solver_solve = (\<lambda>c a e p. Some ((1, 2, 3), None)),
      user = (\<lambda>r. if r = 9 then ''bad'' else ''ok''),
      position = (\<lambda>r. (0, 0, 0)),
      distance = spread,
      Cair = 300000000,
      FTOM = 3048 / 10000,
      MLAT_DELAY = 5 / 2\<rparr>"

text \<open>The same with a solver that returns no estimate.\<close>

definition silent_externals :: externals where
  "silent_externals = demo_externals\<lparr>solver_solve := (\<lambda>c a e p. None)\<rparr>"

text \<open>An aircraft whose last result was accepted at time 95 with distinct count 5.\<close>

definition demo_aircraft :: aircraft where
  "demo_aircraft =
     \<lparr>ac_altitude = None, ac_last_altitude_time = 0, ac_squawk = Some ''7000'',
      ac_callsign = None, ac_last_result_position = Some (0, 0, 0), ac_last_result_var = 100,
      ac_last_result_distinct = 5, ac_last_result_time = 95, ac_kalman = []\<rparr>"

definition aloft :: aircraft where
  "aloft = demo_aircraft\<lparr>ac_altitude := Some 30000\<rparr>"

text \<open>A group of four copies, a group of two, and trackers holding them.\<close>

definition demo_group :: MessageGroup where
  "demo_group =
     \<lparr>group_message = ''m'', group_first_seen = 0,
      group_copies = [(1, 1 / 10000), (2, 5 / 100000), (3, 0), (4, 2 / 100000)]\<rparr>"

definition two_copies :: MessageGroup where
  "two_copies =
     \<lparr>group_message = ''m'', group_first_seen = 0, group_copies = [(1, 1 / 10), (2, 2 / 10)]\<rparr>"

definition idle_tracker :: tracker where
  "idle_tracker =
     \<lparr>pending = (\<lambda>m. None), blacklist = {''bad''},
      aircraft = (\<lambda>a. if a = 7 then Some demo_aircraft else None),
      outputs = [], pseudorange_file = None, calls = []\<rparr>"

definition demo_tracker :: tracker where
  "demo_tracker = idle_tracker\<lparr>pending := (\<lambda>m. if m = ''m'' then Some demo_group else None)\<rparr>"

text \<open>Two clusters as \<open>_cluster_timestamps\<close> returns them.\<close>

definition small_cluster :: "entry list" where
  "small_cluster = [(3, 0, 0), (2, 1 / 20000, 0), (1, 1 / 10000, 0)]"

definition large_cluster :: "entry list" where
  "large_cluster = [(4, 9 / 500000, 0), (3, 1 / 50000, 0), (2, 1 / 20000, 0), (1, 1 / 10000, 0)]"

definition recent_tracker :: tracker where
  "recent_tracker =
     demo_tracker\<lparr>aircraft :=
       (\<lambda>a. if a = 7 then Some (demo_aircraft\<lparr>ac_last_result_distinct := 3\<rparr>) else None)\<rparr>"

text \<open>
  The two conditions of lines 191-195 on which the loop stops, for a cluster of distinct
  count \<open>n\<close>: lower than the old result's with less than 10 s elapsed, or equal to it
  with less than \<open>MLAT_DELAY - 0.5\<close> s elapsed.
\<close>

definition stops :: "externals \<Rightarrow> real \<Rightarrow> nat \<Rightarrow> nat \<Rightarrow> bool" where
  "stops E elapsed lrd n \<longleftrightarrow>
     (elapsed < 10 \<and> n < lrd) \<or> (elapsed < MLAT_DELAY E - 1 / 2 \<and> n = lrd)"

text \<open>
  A cluster the loop passes over and goes on from: the solver is called on it and
  returns no estimate, or an estimate that lines 209-215 turn down.
\<close>

definition passed_over ::
  "externals \<Rightarrow> real \<Rightarrow> vec3 option \<Rightarrow> real \<Rightarrow> real option \<Rightarrow> real option \<Rightarrow> entry list \<Rightarrow> bool" where
  "passed_over E elapsed lrp lrv alt err c =
     (case seed_position E lrp (sort_key (\<lambda>t. fst (snd t)) c) of
        Inl e \<Rightarrow> False
      | Inr seed \<Rightarrow>
          (case solver_solve E (sort_key (\<lambda>t. fst (snd t)) c) alt err seed of
             None \<Rightarrow> True
           | Some (ecef, ecef_cov) \<Rightarrow>
               var_estimate ecef_cov > 100000000 \<or>
               (elapsed < 2 \<and> var_estimate ecef_cov > lrv * (11 / 10))))"

text \<open>The solver call the loop makes for an entry of the stack of clusters.\<close>

definition solve_call ::
  "externals \<Rightarrow> vec3 option \<Rightarrow> real option \<Rightarrow> real option \<Rightarrow> nat \<times> entry list \<Rightarrow> call" where
  "solve_call E lrp alt err x =
     Solve (sort_key (\<lambda>t. fst (snd t)) (snd x)) alt err
       (case seed_position E lrp (sort_key (\<lambda>t. fst (snd t)) (snd x)) of
          Inr p \<Rightarrow> p
        | Inl e \<Rightarrow> (0, 0, 0))"

text \<open>
  A group whose earliest entry is exactly 2 ms before its latest; seven copies that the
  normalizer splits into a component of three receivers and one of four, so that two
  clusters result; receivers with different positions; an aircraft without a result.
\<close>

definition edge_group :: "entry list" where
  "edge_group = [(3, 10 / 10000, 0), (2, 15 / 10000, 0), (1, 30 / 10000, 0)]"

definition wide_cluster :: "entry list" where
  "wide_cluster = [(4, 2 / 100000, 0), (5, 3 / 100000, 0), (6, 4 / 100000, 0), (7, 6 / 100000, 0)]"

definition wide_group :: MessageGroup where
  "wide_group =
     \<lparr>group_message = ''m'', group_first_seen = 0,
      group_copies = [(1, 1 / 10000), (2, 5 / 100000), (3, 0), (4, 2 / 100000),
                      (5, 3 / 100000), (6, 4 / 100000), (7, 6 / 100000)]\<rparr>"

definition wide_tracker :: tracker where
  "wide_tracker = idle_tracker\<lparr>pending := (\<lambda>m. if m = ''m'' then Some wide_group else None)\<rparr>"

definition split_externals :: externals where
  "split_externals =
     silent_externals\<lparr>clocknorm_normalize :=
       (\<lambda>tm. [map (\<lambda>(r, ts). (r, 0, ts)) (filter (\<lambda>(r, ts). r \<le> 3) tm),
              map (\<lambda>(r, ts). (r, 0, ts)) (filter (\<lambda>(r, ts). 3 < r) tm)])\<rparr>"

definition survey_externals :: externals where
  "survey_externals = demo_externals\<lparr>position := (\<lambda>r. (real r, 0, 0))\<rparr>"

definition fresh_tracker :: tracker where
  "fresh_tracker =
     demo_tracker\<lparr>aircraft :=
       (\<lambda>a. if a = 7 then Some (demo_aircraft\<lparr>ac_last_result_position := None\<rparr>) else None)\<rparr>"

section \<open>Properties of the clustering\<close>

lemma check_cluster_accept:
  "check_cluster dtab cair r t cluster b = Inr (True, b')
     \<Longrightarrow> (\<forall>y \<in> set cluster. compat dtab cair (r, t, v) y)
         \<and> b' = (b \<and> \<not> (\<exists>z \<in> set cluster. near dtab (r, t, v) z))"
proof (induction cluster arbitrary: b)
  case Nil
  then show ?case by simp
next
  case (Cons y cluster)
  obtain r' t' v' where y: "y = (r', t', v')" by (cases y) auto
  from Cons.prems y have ne: "r' \<noteq> r" by (auto split: if_splits)
  from Cons.prems y ne obtain d where d: "dtab r r' = Some d"
    by (cases "dtab r r'") auto
  from Cons.prems y ne d have c0: "cair \<noteq> 0" by (auto split: if_splits)
  from Cons.prems y ne d c0 have le: "\<not> \<bar>t' - t\<bar> > (d * (105 / 100) + 1000) / cair"
    by (auto split: if_splits)
  from Cons.prems y ne d c0 le
  have rec: "check_cluster dtab cair r t cluster (if d < 1000 then False else b) = Inr (True, b')"
    by simp
  from Cons.IH [OF rec] y ne d le show ?case
    by (auto simp: compat_def near_def abs_minus_commute)
qed

lemma scan_invariant:
  assumes "scan dtab cair lt n grp cluster dr = Inr (grp', cluster', dr')"
    and "P grp cluster dr"
    and step: "\<And>g c k i r t v b. P g c k \<Longrightarrow> i < length g \<Longrightarrow> g ! i = (r, t, v)
             \<Longrightarrow> \<not> lt - t > 2 / 1000
             \<Longrightarrow> check_cluster dtab cair r t c True = Inr (True, b)
             \<Longrightarrow> P (take i g @ drop (Suc i) g) (c @ [(r, t, v)]) (if b then k + 1 else k)"
  shows "P grp' cluster' dr'"
  using assms(1,2)
proof (induction n arbitrary: grp cluster dr)
  case 0
  then show ?case by simp
next
  case (Suc n)
  from Suc.prems(1) have len: "n < length grp" by (auto split: if_splits)
  obtain r t v where g: "grp ! n = (r, t, v)" by (cases "grp ! n") auto
  show ?case
  proof (cases "lt - t > 2 / 1000")
    case True
    with Suc.prems len g show ?thesis by simp
  next
    case far: False
    show ?thesis
    proof (cases "check_cluster dtab cair r t cluster True")
      case (Inl e)
      with Suc.prems(1) len g far show ?thesis by simp
    next
      case (Inr p)
      obtain c d where p: "p = (c, d)" by (cases p) auto
      show ?thesis
      proof (cases c)
        case True
        with Suc.prems(1) len g far Inr p
        have run: "scan dtab cair lt n (take n grp @ drop (Suc n) grp)
                (cluster @ [(r, t, v)]) (if d then dr + 1 else dr) = Inr (grp', cluster', dr')"
          by simp
        from True Inr p have "check_cluster dtab cair r t cluster True = Inr (True, d)"
          by simp
        from step [OF Suc.prems(2) len g far this]
        show ?thesis using Suc.IH [OF run] by simp
      next
        case cf: False
        with Suc.prems(1) len g far Inr p
        have "scan dtab cair lt n grp cluster dr = Inr (grp', cluster', dr')"
          by simp
        from Suc.IH [OF this Suc.prems(2)] show ?thesis .
      qed
    qed
  qed
qed

lemma cluster_group_all:
  assumes "cluster_group dtab cair m grp clusters = Inr cs"
    and "\<forall>x \<in> set clusters. P x"
    and "\<And>g g' c d. form_cluster dtab cair g = Inr (g', c, d) \<Longrightarrow> 3 \<le> length g
                 \<Longrightarrow> P (d, rev c)"
  shows "\<forall>x \<in> set cs. P x"
  using assms
proof (induction dtab cair m grp clusters rule: cluster_group.induct)
  case (1 dtab cair m grp clusters)
  note step = "1.prems"(3)
  show ?case
  proof (cases "3 \<le> length grp")
    case False
    with "1.prems"(1,2) show ?thesis by (simp add: cluster_group.simps)
  next
    case True
    show ?thesis
    proof (cases "form_cluster dtab cair grp")
      case (Inl e)
      with "1.prems"(1) True show ?thesis by (simp add: cluster_group.simps)
    next
      case (Inr p)
      obtain g' c d where p: "p = (g', c, d)" by (cases p) auto
      let ?cl = "if m \<le> d then clusters @ [(d, rev c)] else clusters"
      from "1.prems"(1) True Inr p
      have run: "cluster_group dtab cair m g' ?cl = Inr cs"
        by (simp add: cluster_group.simps)
      from Inr p have "P (d, rev c)" using step [OF _ True] by simp
      with "1.prems"(2) have all: "\<forall>x \<in> set ?cl. P x" by simp
      from "1.IH" [OF True Inr _ _ run all step, of "(c, d)"] p show ?thesis by simp
    qed
  qed
qed

lemma cluster_groups_all:
  assumes "cluster_groups dtab cair m groups clusters = Inr cs"
    and "\<forall>x \<in> set clusters. P x"
    and step: "\<And>g g' c d. form_cluster dtab cair g = Inr (g', c, d) \<Longrightarrow> 3 \<le> length g
                 \<Longrightarrow> P (d, rev c)"
  shows "\<forall>x \<in> set cs. P x"
  using assms(1,2)
proof (induction groups arbitrary: clusters)
  case Nil
  then show ?case by simp
next
  case (Cons g groups)
  from Cons.prems(1) obtain cl where
    g: "cluster_group dtab cair m g clusters = Inr cl" and
    rest: "cluster_groups dtab cair m groups cl = Inr cs"
    by (auto split: sum.splits)
  from cluster_group_all [of dtab cair m g clusters cl P, OF g Cons.prems(2) step]
  have "\<forall>x \<in> set cl. P x" by simp
  from Cons.IH [OF rest this] show ?case .
qed

lemma cluster_timestamps_all:
  assumes "cluster_timestamps dtab cair component m = Inr cs"
    and step: "\<And>g g' c d. form_cluster dtab cair g = Inr (g', c, d) \<Longrightarrow> 3 \<le> length g
                 \<Longrightarrow> P (d, rev c)"
  shows "\<forall>x \<in> set cs. P x"
proof -
  from assms(1) obtain groups where
    "cluster_groups dtab cair m groups [] = Inr cs"
    by (auto simp: cluster_timestamps_def split: list.splits)
  from cluster_groups_all [of dtab cair m groups "[]" cs P, OF this _ step]
  show ?thesis by simp
qed

lemma form_cluster_props:
  assumes "form_cluster dtab cair grp = Inr (grp', cluster, dr)"
  shows "feasible dtab cair (rev cluster)"
    and "dr = distinct_count dtab (rev cluster)"
    and "dr \<le> length cluster"
    and "cluster \<noteq> []"
    and "\<forall>x \<in> set cluster. fst (snd (last grp)) - fst (snd x) \<le> 2 / 1000"
    and "hd cluster = last grp"
proof -
  let ?P = "\<lambda>(g :: entry list) c k. feasible dtab cair (rev c)
     \<and> k = distinct_count dtab (rev c) \<and> k \<le> length c \<and> c \<noteq> []
     \<and> (\<forall>x \<in> set c. fst (snd (last grp)) - fst (snd x) \<le> 2 / 1000)
     \<and> hd c = last grp"
  have "?P grp' cluster dr"
  proof (rule scan_invariant [where P = ?P, OF assms [unfolded form_cluster_def Let_def]])
    show "?P (butlast grp) [last grp] 1" by simp
  next
    fix g c k i r t v b
    assume P: "?P g c k" and "i < length g" "g ! i = (r, t, v)"
      and far: "\<not> 2 / 1000 < fst (snd (last grp)) - t"
      and chk: "check_cluster dtab cair r t c True = Inr (True, b)"
    from check_cluster_accept [OF chk, of v]
    have ok: "\<forall>y \<in> set c. compat dtab cair (r, t, v) y"
      and b: "b = (\<not> (\<exists>z \<in> set c. near dtab (r, t, v) z))" by auto
    from P obtain y ys where c: "rev c = y # ys" by (cases "rev c") auto
    then have sc: "set c = set (y # ys)" by (metis set_rev)
    from P ok far b c sc
    show "?P (take i g @ drop (Suc i) g) (c @ [(r, t, v)]) (if b then k + 1 else k)"
      by (auto simp: hd_append)
  qed
  then show "feasible dtab cair (rev cluster)"
    and "dr = distinct_count dtab (rev cluster)"
    and "dr \<le> length cluster"
    and "cluster \<noteq> []"
    and "\<forall>x \<in> set cluster. fst (snd (last grp)) - fst (snd x) \<le> 2 / 1000"
    and "hd cluster = last grp"
    by auto
qed

lemma feasible_nth:
  "feasible dtab cair xs \<Longrightarrow> i < j \<Longrightarrow> j < length xs
     \<Longrightarrow> compat dtab cair (xs ! i) (xs ! j)"
proof (induction xs arbitrary: i j)
  case Nil
  then show ?case by simp
next
  case (Cons x xs)
  from Cons.prems obtain j' where j: "j = Suc j'" by (cases j) auto
  show ?case
  proof (cases i)
    case 0
    with Cons.prems j show ?thesis by simp
  next
    case (Suc i')
    with Cons.prems j Cons.IH [of i' j'] show ?thesis by simp
  qed
qed

lemma feasible_distinct: "feasible dtab cair xs \<Longrightarrow> distinct (map fst xs)"
  by (induction xs) (auto simp: compat_def)

lemma scan_cutoff:
  "scan dtab cair lt n grp cluster dr = Inr (grp', cluster', dr') \<Longrightarrow> i < n
     \<Longrightarrow> lt - fst (snd (grp ! i)) > 2 / 1000
     \<Longrightarrow> take (Suc i) grp' = take (Suc i) grp"
proof (induction n arbitrary: grp cluster dr)
  case 0
  then show ?case by simp
next
  case (Suc n)
  from Suc.prems(1) have len: "n < length grp" by (auto split: if_splits)
  obtain r t v where g: "grp ! n = (r, t, v)" by (cases "grp ! n") auto
  show ?case
  proof (cases "lt - t > 2 / 1000")
    case True
    with Suc.prems(1) len g show ?thesis by simp
  next
    case far: False
    with Suc.prems(2,3) g have lt: "i < n" by (cases "i = n") auto
    show ?thesis
    proof (cases "check_cluster dtab cair r t cluster True")
      case (Inl e)
      with Suc.prems(1) len g far show ?thesis by simp
    next
      case (Inr p)
      obtain c d where p: "p = (c, d)" by (cases p) auto
      show ?thesis
      proof (cases c)
        case True
        let ?g = "take n grp @ drop (Suc n) grp"
        from True Suc.prems(1) len g far Inr p
        have run: "scan dtab cair lt n ?g (cluster @ [grp ! n]) (if d then dr + 1 else dr)
                     = Inr (grp', cluster', dr')"
          by simp
        from lt len have same: "?g ! i = grp ! i" by (simp add: nth_append)
        from lt len have tk: "take (Suc i) ?g = take (Suc i) grp" by (simp add: min_def)
        from Suc.IH [OF run lt] same Suc.prems(3) tk show ?thesis by simp
      next
        case cf: False
        with Suc.prems(1) len g far Inr p
        have "scan dtab cair lt n grp cluster dr = Inr (grp', cluster', dr')"
          by simp
        from Suc.IH [OF this lt Suc.prems(3)] show ?thesis .
      qed
    qed
  qed
qed

lemma check_cluster_complete:
  "cair \<noteq> 0 \<Longrightarrow> \<forall>y \<in> set cluster. compat dtab cair (r, t, v) y
     \<Longrightarrow> \<exists>b'. check_cluster dtab cair r t cluster b = Inr (True, b')"
proof (induction cluster arbitrary: b)
  case Nil
  show ?case by simp
next
  case (Cons y cluster)
  obtain r' t' v' where y: "y = (r', t', v')" by (cases y) auto
  from Cons.prems(2) y have ne: "r' \<noteq> r" by (auto simp: compat_def)
  from Cons.prems(2) y obtain d where d: "dtab r r' = Some d"
    and le: "\<bar>t - t'\<bar> \<le> (d * (105 / 100) + 1000) / cair"
    by (auto simp: compat_def split: option.splits)
  from le have le': "\<not> \<bar>t' - t\<bar> > (d * (105 / 100) + 1000) / cair"
    by (simp add: abs_minus_commute)
  from Cons.prems(2) have rest: "\<forall>y \<in> set cluster. compat dtab cair (r, t, v) y" by simp
  from Cons.IH [OF Cons.prems(1) rest, of "if d < 1000 then False else b"]
  show ?case using y ne d le' Cons.prems(1) by simp
qed

lemma feasible_append:
  "feasible dtab cair (xs @ ys) \<Longrightarrow>
     feasible dtab cair ys \<and> (\<forall>x \<in> set xs. \<forall>y \<in> set ys. compat dtab cair x y)"
  by (induction xs) auto

lemma scan_all:
  "n \<le> length g \<Longrightarrow> cair \<noteq> 0 \<Longrightarrow> \<forall>i < n. \<not> lt - fst (snd (g ! i)) > 2 / 1000
     \<Longrightarrow> feasible dtab cair (take n g @ rev cluster)
     \<Longrightarrow> \<exists>dr'. scan dtab cair lt n g cluster dr = Inr (drop n g, cluster @ rev (take n g), dr')"
proof (induction n arbitrary: g cluster dr)
  case 0
  show ?case by simp
next
  case (Suc n)
  from Suc.prems(1) have len: "n < length g" by simp
  obtain r t v where gn: "g ! n = (r, t, v)" by (cases "g ! n") auto
  from Suc.prems(3) gn have near2: "\<not> lt - t > 2 / 1000" by auto
  from len have tk: "take (Suc n) g = take n g @ [g ! n]" by (simp add: take_Suc_conv_app_nth)
  with Suc.prems(4) have f: "feasible dtab cair (take n g @ (g ! n # rev cluster))" by simp
  from feasible_append [OF f] gn have "\<forall>y \<in> set cluster. compat dtab cair (r, t, v) y"
    by simp
  from check_cluster_complete [OF Suc.prems(2) this, of True] obtain b' where
    chk: "check_cluster dtab cair r t cluster True = Inr (True, b')" by auto
  let ?g = "take n g @ drop (Suc n) g"
  from len have l': "n \<le> length ?g" by simp
  from len have same: "\<forall>i < n. ?g ! i = g ! i" by (simp add: nth_append)
  with Suc.prems(3) have near': "\<forall>i < n. \<not> lt - fst (snd (?g ! i)) > 2 / 1000" by simp
  from len have tk': "take n ?g = take n g" by simp
  from len have dr': "drop n ?g = drop (Suc n) g" by simp
  have f': "feasible dtab cair (take n ?g @ rev (cluster @ [g ! n]))"
    unfolding tk' using f by simp
  from Suc.IH [OF l' Suc.prems(2) near' f', of "if b' then dr + 1 else dr"]
  obtain k where "scan dtab cair lt n ?g (cluster @ [g ! n]) (if b' then dr + 1 else dr)
      = Inr (drop n ?g, (cluster @ [g ! n]) @ rev (take n ?g), k)" by auto
  with len gn near2 chk tk tk' dr' show ?case by simp
qed

text \<open>
  Claim C1. In every cluster that \<open>_cluster_timestamps\<close> returns, no two members come
  from the same receiver, and any two members satisfy the propagation-delay bound
  \<open>|t1 - t2| \<le> (distance * 1.05 + 1000) / Cair\<close>, the distance being looked up from the
  member accepted later (the earlier one in the returned order) to the other.
\<close>

theorem clusters_feasible:
  assumes "cluster_timestamps dtab cair component min_receivers = Inr clusters"
    and "(n, cluster) \<in> set clusters"
  shows "distinct (map fst cluster) \<and>
         (\<forall>i j. i < j \<and> j < length cluster \<longrightarrow>
            (case dtab (fst (cluster ! i)) (fst (cluster ! j)) of
               None \<Rightarrow> False
             | Some d \<Rightarrow> \<bar>fst (snd (cluster ! i)) - fst (snd (cluster ! j))\<bar>
                            \<le> (d * (105 / 100) + 1000) / cair))"
proof -
  have "\<forall>x \<in> set clusters. feasible dtab cair (snd x)"
    by (rule cluster_timestamps_all [OF assms(1)]) (simp add: form_cluster_props(1))
  with assms(2) have f: "feasible dtab cair cluster" by auto
  show ?thesis
    using feasible_distinct [OF f] feasible_nth [OF f] by (auto simp: compat_def)
qed

theorem clusters_feasible_witness:
  "cluster_timestamps spread 300000000 three_receivers 3
     = Inr [(3, [(3, 0, 0), (2, 1 / 20000, 0), (1, 1 / 10000, 0)])] \<and>
   distinct (map fst [(3, 0, 0), (2, 1 / 20000, 0), (1 :: nat, 1 / 10000 :: real, 0 :: real)]) \<and>
   \<bar>0 - 1 / 10000 :: real\<bar> \<le> (30000 * (105 / 100) + 1000) / 300000000"
proof -
  let ?c = "[(3, 0, 0), (2, 1 / 20000, 0), (1 :: nat, 1 / 10000 :: real, 0 :: real)]"
  have run: "cluster_timestamps spread 300000000 three_receivers 3 = Inr [(3, ?c)]"
    by (simp add: cluster_timestamps_def flatten_def three_receivers_def spread_def
          cluster_group.simps form_cluster_def)
  have mem: "(3, ?c) \<in> set [(3, ?c)]" by simp
  from clusters_feasible [OF run mem]
  have A: "distinct (map fst ?c)"
    and B: "\<forall>i j. i < j \<and> j < length ?c \<longrightarrow>
            (case spread (fst (?c ! i)) (fst (?c ! j)) of
               None \<Rightarrow> False
             | Some d \<Rightarrow> \<bar>fst (snd (?c ! i)) - fst (snd (?c ! j))\<bar>
                            \<le> (d * (105 / 100) + 1000) / 300000000)"
    by blast+
  from B [rule_format, of 0 2] have "\<bar>0 - 1 / 10000 :: real\<bar> \<le> (30000 * (105 / 100) + 1000) / 300000000"
    by (simp add: spread_def)
  with run A show ?thesis by blast
qed

text \<open>
  Claim C8. In every cluster that \<open>_cluster_timestamps\<close> returns, the distinct-receiver
  count is at most the number of members, and it is the count in which a member within
  1 km of a receiver already in the cluster does not add to the count.
\<close>

theorem clusters_distinct_count:
  assumes "cluster_timestamps dtab cair component min_receivers = Inr clusters"
    and "(n, cluster) \<in> set clusters"
  shows "n \<le> length cluster \<and> n = distinct_count dtab cluster"
proof -
  have "\<forall>x \<in> set clusters. fst x \<le> length (snd x) \<and> fst x = distinct_count dtab (snd x)"
    by (rule cluster_timestamps_all [OF assms(1)])
       (use form_cluster_props(2,3) in auto)
  with assms(2) show ?thesis by auto
qed

theorem clusters_distinct_count_witness:
  "cluster_timestamps colocated 300000000 four_receivers 3
     = Inr [(3, [(4, 9 / 500000, 0), (3, 1 / 50000, 0), (2, 1 / 20000, 0), (1, 1 / 10000, 0)])] \<and>
   (3 :: nat) \<le> length [(4, 9 / 500000, 0), (3, 1 / 50000, 0), (2, 1 / 20000, 0),
                       (1 :: nat, 1 / 10000 :: real, 0 :: real)] \<and>
   distinct_count colocated
     [(4, 9 / 500000, 0), (3, 1 / 50000, 0), (2, 1 / 20000, 0), (1, 1 / 10000, 0)] = 3"
proof -
  let ?c = "[(4, 9 / 500000, 0), (3, 1 / 50000, 0), (2, 1 / 20000, 0),
             (1 :: nat, 1 / 10000 :: real, 0 :: real)]"
  have run: "cluster_timestamps colocated 300000000 four_receivers 3 = Inr [(3, ?c)]"
    by (simp add: cluster_timestamps_def flatten_def four_receivers_def colocated_def
          cluster_group.simps form_cluster_def)
  have mem: "(3, ?c) \<in> set [(3, ?c)]" by simp
  from clusters_distinct_count [OF run mem] run show ?thesis by simp
qed

text \<open>
  Claim C2, as stated, fails: the scan below accepts receiver 2 at 1.5 ms, then stops
  at receiver 3 at 0.5 ms, which is only 1 ms earlier than the member accepted last
  but 2.5 ms earlier than the seed at 3 ms. With an advancing reference receiver 3
  would have been considered, and accepted.
\<close>

theorem scan_reference_counterexample:
  "scan far_apart 300000000 (30 / 10000) 2
       [(3, 5 / 10000, 0), (2, 15 / 10000, 0)] [(1, 30 / 10000, 0)] 1
     = Inr ([(3, 5 / 10000, 0)], [(1, 30 / 10000, 0), (2, 15 / 10000, 0)], 2) \<and>
   \<not> (15 / 10000 - 5 / 10000 > (2 / 1000 :: real)) \<and>
   scan_advancing far_apart 300000000 (30 / 10000) 2
       [(3, 5 / 10000, 0), (2, 15 / 10000, 0)] [(1, 30 / 10000, 0)] 1
     = Inr ([], [(1, 30 / 10000, 0), (2, 15 / 10000, 0), (3, 5 / 10000, 0)], 3)"
  by (simp add: far_apart_def numeral_2_eq_2)

text \<open>
  Claim C2, amended. The cutoff is taken against the seed of the cluster, the last entry
  of the group, and stays there for the whole scan. At a candidate whose timestamp is
  more than 2 ms earlier than the seed's the scan stops at once, whatever has been
  accepted so far; at any other candidate, one exactly 2 ms earlier included, it makes
  the strict test and goes on to the next. So every member of a cluster is at most 2 ms
  earlier than the seed, every entry at or before a position that is further back is
  left in the group, and a group whose entries are all within 2 ms of its last and
  feasible among themselves becomes one cluster.
\<close>

theorem form_cluster_cutoff:
  "form_cluster dtab cair grp =
     scan dtab cair (fst (snd (last grp))) (length grp - 1) (butlast grp) [last grp] 1 \<and>
   (j < length g \<and> fst (snd (last grp)) - fst (snd (g ! j)) > 2 / 1000 \<longrightarrow>
      scan dtab cair (fst (snd (last grp))) (Suc j) g cluster0 dr0 = Inr (g, cluster0, dr0)) \<and>
   (j < length g \<and> \<not> fst (snd (last grp)) - fst (snd (g ! j)) > 2 / 1000 \<longrightarrow>
      scan dtab cair (fst (snd (last grp))) (Suc j) g cluster0 dr0 =
        (case check_cluster dtab cair (fst (g ! j)) (fst (snd (g ! j))) cluster0 True of
           Inl e \<Rightarrow> Inl e
         | Inr (can_cluster, is_distinct) \<Rightarrow>
             if can_cluster
             then scan dtab cair (fst (snd (last grp))) j (take j g @ drop (Suc j) g)
                    (cluster0 @ [g ! j]) (if is_distinct then dr0 + 1 else dr0)
             else scan dtab cair (fst (snd (last grp))) j g cluster0 dr0)) \<and>
   (form_cluster dtab cair grp = Inr (grp', cluster, dr) \<longrightarrow>
      (\<forall>x \<in> set cluster. fst (snd (last grp)) - fst (snd x) \<le> 2 / 1000)) \<and>
   (form_cluster dtab cair grp = Inr (grp', cluster, dr) \<and> i < length grp - 1 \<and>
    fst (snd (last grp)) - fst (snd (grp ! i)) > 2 / 1000 \<longrightarrow>
      take (Suc i) grp' = take (Suc i) grp) \<and>
   (grp \<noteq> [] \<and> cair \<noteq> 0 \<and> feasible dtab cair grp \<and>
    (\<forall>x \<in> set grp. fst (snd (last grp)) - fst (snd x) \<le> 2 / 1000) \<longrightarrow>
      form_cluster dtab cair grp = Inr ([], rev grp, distinct_count dtab grp))"
proof -
  let ?seed = "fst (snd (last grp))"
  have A: "form_cluster dtab cair grp =
     scan dtab cair ?seed (length grp - 1) (butlast grp) [last grp] 1"
    by (simp add: form_cluster_def Let_def)
  have B: "scan dtab cair ?seed (Suc j) g cluster0 dr0 = Inr (g, cluster0, dr0)"
    if "j < length g" "?seed - fst (snd (g ! j)) > 2 / 1000"
    using that by (cases "g ! j") auto
  have B': "scan dtab cair ?seed (Suc j) g cluster0 dr0 =
        (case check_cluster dtab cair (fst (g ! j)) (fst (snd (g ! j))) cluster0 True of
           Inl e \<Rightarrow> Inl e
         | Inr (can_cluster, is_distinct) \<Rightarrow>
             if can_cluster
             then scan dtab cair ?seed j (take j g @ drop (Suc j) g)
                    (cluster0 @ [g ! j]) (if is_distinct then dr0 + 1 else dr0)
             else scan dtab cair ?seed j g cluster0 dr0)"
    if "j < length g" "\<not> ?seed - fst (snd (g ! j)) > 2 / 1000"
    using that by (cases "g ! j") (simp split: sum.splits)
  have C: "\<forall>x \<in> set cluster. ?seed - fst (snd x) \<le> 2 / 1000"
    if run: "form_cluster dtab cair grp = Inr (grp', cluster, dr)"
    using form_cluster_props(5) [OF run] .
  have D: "take (Suc i) grp' = take (Suc i) grp"
    if run: "form_cluster dtab cair grp = Inr (grp', cluster, dr)"
      and i: "i < length grp - 1"
      and far: "?seed - fst (snd (grp ! i)) > 2 / 1000"
  proof -
    from i have "butlast grp ! i = grp ! i" by (simp add: nth_butlast)
    with far have far': "?seed - fst (snd (butlast grp ! i)) > 2 / 1000"
      by simp
    from i have "i < length (butlast grp)" by simp
    from scan_cutoff [OF run [unfolded form_cluster_def Let_def] this far']
    have "take (Suc i) grp' = take (Suc i) (butlast grp)" .
    also from i have "\<dots> = take (Suc i) grp"
      by (simp add: take_butlast)
    finally show ?thesis .
  qed
  have F: "form_cluster dtab cair grp = Inr ([], rev grp, distinct_count dtab grp)"
    if ne: "grp \<noteq> []" and c0: "cair \<noteq> 0" and f: "feasible dtab cair grp"
      and near2: "\<forall>x \<in> set grp. ?seed - fst (snd x) \<le> 2 / 1000"
  proof -
    from ne have split: "grp = butlast grp @ [last grp]" by simp
    have n1: "\<forall>i < length (butlast grp). \<not> ?seed - fst (snd (butlast grp ! i)) > 2 / 1000"
    proof (intro allI impI)
      fix i assume "i < length (butlast grp)"
      then have "butlast grp ! i \<in> set grp"
        by (metis in_set_butlastD nth_mem)
      with near2 show "\<not> ?seed - fst (snd (butlast grp ! i)) > 2 / 1000" by fastforce
    qed
    from f split have f1: "feasible dtab cair
        (take (length (butlast grp)) (butlast grp) @ rev [last grp])"
      by simp
    from scan_all [OF _ c0 n1 f1, of 1] obtain k where
      "scan dtab cair ?seed (length (butlast grp)) (butlast grp) [last grp] 1
         = Inr ([], [last grp] @ rev (butlast grp), k)" by auto
    then have run: "form_cluster dtab cair grp = Inr ([], last grp # rev (butlast grp), k)"
      by (simp add: form_cluster_def Let_def)
    from split have r: "last grp # rev (butlast grp) = rev grp"
      by (metis rev.simps(2) rev_rev_ident rev_swap singleton_rev_conv append_Cons append_Nil rev_append)
    from form_cluster_props(2) [OF run] r have "k = distinct_count dtab grp" by simp
    with run r show ?thesis by simp
  qed
  from A B B' C D F show ?thesis by blast
qed

theorem form_cluster_cutoff_witness:
  "form_cluster far_apart 300000000 long_group
     = Inr ([(3, 5 / 10000, 0)], [(1, 30 / 10000, 0), (2, 15 / 10000, 0)], 2) \<and>
   (0 :: nat) < length long_group - 1 \<and>
   fst (snd (last long_group)) - fst (snd (long_group ! 0)) > 2 / 1000 \<and>
   take (Suc 0) [(3 :: nat, 5 / 10000 :: real, 0 :: real)] = take (Suc 0) long_group \<and>
   scan far_apart 300000000 (fst (snd (last long_group))) (Suc 0) [(3, 5 / 10000, 0)]
       [(1, 30 / 10000, 0), (2, 15 / 10000, 0)] 2
     = Inr ([(3, 5 / 10000, 0)], [(1, 30 / 10000, 0), (2, 15 / 10000, 0)], 2) \<and>
   fst (snd (last edge_group)) - fst (snd (edge_group ! 0)) = 2 / 1000 \<and>
   form_cluster far_apart 300000000 edge_group
     = Inr ([], [(1, 30 / 10000, 0), (2, 15 / 10000, 0), (3, 10 / 10000, 0)], 3)"
proof -
  have run: "form_cluster far_apart 300000000 long_group
     = Inr ([(3, 5 / 10000, 0)], [(1, 30 / 10000, 0), (2, 15 / 10000, 0)], 2)"
    by (simp add: form_cluster_def long_group_def far_apart_def)
  have i: "(0 :: nat) < length long_group - 1" by (simp add: long_group_def)
  have far: "fst (snd (last long_group)) - fst (snd (long_group ! 0)) > 2 / 1000"
    by (simp add: long_group_def)
  have far': "fst (snd (last long_group)) - fst (snd ([(3 :: nat, 5 / 10000 :: real, 0 :: real)] ! 0))
                > 2 / 1000"
    by (simp add: long_group_def)
  note inst = form_cluster_cutoff [where dtab = far_apart and cair = 300000000
      and grp = long_group and grp' = "[(3, 5 / 10000, 0)]"
      and cluster = "[(1, 30 / 10000, 0), (2, 15 / 10000, 0)]" and dr = 2 and i = 0
      and j = 0 and g = "[(3, 5 / 10000, 0)]"
      and cluster0 = "[(1, 30 / 10000, 0), (2, 15 / 10000, 0)]" and ?dr0.0 = 2]
  from inst run i far have A:
    "take (Suc 0) [(3 :: nat, 5 / 10000 :: real, 0 :: real)] = take (Suc 0) long_group"
    by blast
  from inst far' have B:
    "scan far_apart 300000000 (fst (snd (last long_group))) (Suc 0) [(3, 5 / 10000, 0)]
       [(1, 30 / 10000, 0), (2, 15 / 10000, 0)] 2
     = Inr ([(3, 5 / 10000, 0)], [(1, 30 / 10000, 0), (2, 15 / 10000, 0)], 2)"
    by simp
  have edge: "fst (snd (last edge_group)) - fst (snd (edge_group ! 0)) = 2 / 1000"
    by (simp add: edge_group_def)
  have ne: "edge_group \<noteq> []" and c0: "(300000000 :: real) \<noteq> 0"
    and f: "feasible far_apart 300000000 edge_group"
    and near2: "\<forall>x \<in> set edge_group. fst (snd (last edge_group)) - fst (snd x) \<le> 2 / 1000"
    by (simp_all add: edge_group_def compat_def far_apart_def)
  from form_cluster_cutoff [where dtab = far_apart and cair = 300000000 and grp = edge_group]
    ne c0 f near2
  have "form_cluster far_apart 300000000 edge_group
          = Inr ([], rev edge_group, distinct_count far_apart edge_group)"
    by blast
  then have C: "form_cluster far_apart 300000000 edge_group
     = Inr ([], [(1, 30 / 10000, 0), (2, 15 / 10000, 0), (3, 10 / 10000, 0)], 3)"
    by (simp add: edge_group_def near_def far_apart_def)
  from run i far A B edge C show ?thesis by blast
qed

section \<open>Properties of the resolution\<close>

lemma select_break:
  "(elapsed < 10 \<and> n < lrd) \<or> (elapsed < MLAT_DELAY E - 1 / 2 \<and> n = lrd)
     \<Longrightarrow> select E elapsed lrp lrv lrd alt err ((n, c) # rest) made = (made, Inr None)"
  by auto

lemma select_solve:
  assumes "\<not> (elapsed < 10 \<and> n < lrd)" "\<not> (elapsed < MLAT_DELAY E - 1 / 2 \<and> n = lrd)"
    and "seed_position E lrp (sort_key (\<lambda>t. fst (snd t)) c) = Inr seed"
  shows "select E elapsed lrp lrv lrd alt err ((n, c) # rest) made =
     (case solver_solve E (sort_key (\<lambda>t. fst (snd t)) c) alt err seed of
        None \<Rightarrow> select E elapsed lrp lrv lrd alt err rest
                 (made @ [Solve (sort_key (\<lambda>t. fst (snd t)) c) alt err seed])
      | Some (ecef, ecef_cov) \<Rightarrow>
          if var_estimate ecef_cov > 100000000
           \<or> (elapsed < 2 \<and> var_estimate ecef_cov > lrv * (11 / 10))
          then select E elapsed lrp lrv lrd alt err rest
                 (made @ [Solve (sort_key (\<lambda>t. fst (snd t)) c) alt err seed])
          else (made @ [Solve (sort_key (\<lambda>t. fst (snd t)) c) alt err seed],
                Inr (Some (ecef, ecef_cov, var_estimate ecef_cov, n,
                           sort_key (\<lambda>t. fst (snd t)) c))))"
proof -
  from assms(1,2) have nb: "(elapsed < 10 \<and> n < lrd) = False"
    "(elapsed < MLAT_DELAY E - 1 / 2 \<and> n = lrd) = False" by blast+
  show ?thesis
    by (simp only: select.simps nb if_False Let_def assms(3) sum.case)
       (simp split: option.splits)
qed

lemma select_extends:
  "\<exists>ext. fst (select E elapsed lrp lrv lrd alt err cs made) = made @ ext"
proof (induction cs arbitrary: made)
  case Nil
  show ?case by simp
next
  case (Cons x cs)
  obtain n c where x: "x = (n, c)" by (cases x) auto
  let ?c = "sort_key (\<lambda>t. fst (snd t)) c"
  show ?case
  proof (cases "(elapsed < 10 \<and> n < lrd) \<or> (elapsed < MLAT_DELAY E - 1 / 2 \<and> n = lrd)")
    case True
    then show ?thesis unfolding x by (subst select_break) auto
  next
    case False
    then have nb: "\<not> (elapsed < 10 \<and> n < lrd)" "\<not> (elapsed < MLAT_DELAY E - 1 / 2 \<and> n = lrd)"
      by blast+
    show ?thesis
    proof (cases "seed_position E lrp ?c")
      case (Inl e)
      with nb show ?thesis unfolding x by (simp add: Let_def)
    next
      case (Inr seed)
      from Cons.IH [of "made @ [Solve ?c alt err seed]"]
      obtain ext where
        "fst (select E elapsed lrp lrv lrd alt err cs (made @ [Solve ?c alt err seed]))
           = made @ Solve ?c alt err seed # ext" by auto
      then show ?thesis unfolding x select_solve [OF nb Inr]
        by (auto split: option.splits)
    qed
  qed
qed

lemma commit_props:
  assumes "commit E now s grp dec ac alt err res = (s', e)"
  shows "calls s' = calls s" and "pending s' = pending s"
    and "\<exists>ac'. aircraft s' = (aircraft s)(dec_address dec \<mapsto> ac') \<and>
           ac_altitude ac' = ac_altitude ac \<and>
           ac_last_altitude_time ac' = ac_last_altitude_time ac \<and>
           ac_squawk ac' = ac_squawk ac \<and> ac_callsign ac' = ac_callsign ac"
    and "length (outputs s') = Suc (length (outputs s))"
  using assms
  by (auto simp: commit_def Let_def split: prod.splits option.splits list.splits)

lemma resolve_aircraft_props:
  assumes "resolve_aircraft E now s grp dec ac0 = (s', e)"
  shows "pending s' = pending s"
    and "\<exists>ac'. aircraft s' = (aircraft s)(dec_address dec \<mapsto> ac') \<and>
           ac_altitude ac' = ac_altitude (refresh now dec ac0) \<and>
           ac_last_altitude_time ac' = ac_last_altitude_time (refresh now dec ac0) \<and>
           ac_squawk ac' = ac_squawk (refresh now dec ac0) \<and>
           ac_callsign ac' = ac_callsign (refresh now dec ac0) \<and>
           (outputs s' = outputs s \<longrightarrow> ac' = refresh now dec ac0)"
proof -
  let ?ac = "refresh now dec ac0"
  let ?s = "s\<lparr>aircraft := (aircraft s)(dec_address dec \<mapsto> ?ac)\<rparr>"
  obtain lrp lrv lrd el where old: "old_result now ?ac = (lrp, lrv, lrd, el)"
    by (cases "old_result now ?ac") auto
  obtain alt err minr where fa: "find_altitude (FTOM E) now ?ac = (alt, err, minr)"
    by (cases "find_altitude (FTOM E) now ?ac") auto
  have ends: "(\<exists>k. s' = ?s\<lparr>calls := k\<rparr>) \<or>
        (\<exists>k res. commit E now (?s\<lparr>calls := k\<rparr>) grp dec ?ac alt err res = (s', e))"
  proof -
    have same: "?s = ?s\<lparr>calls := calls s\<rparr>" by simp
    from assms old fa show ?thesis
      by (auto simp: resolve_aircraft_def Let_def
            split: if_splits sum.splits option.splits prod.splits intro: same)
  qed
  then consider k where "s' = ?s\<lparr>calls := k\<rparr>"
    | k res where "commit E now (?s\<lparr>calls := k\<rparr>) grp dec ?ac alt err res = (s', e)"
    by blast
  then show "pending s' = pending s"
  proof cases
    case 1
    then show ?thesis by simp
  next
    case 2
    from commit_props(2) [OF 2] show ?thesis by simp
  qed
  from ends consider k where "s' = ?s\<lparr>calls := k\<rparr>"
    | k res where "commit E now (?s\<lparr>calls := k\<rparr>) grp dec ?ac alt err res = (s', e)"
    by blast
  then show "\<exists>ac'. aircraft s' = (aircraft s)(dec_address dec \<mapsto> ac') \<and>
           ac_altitude ac' = ac_altitude (refresh now dec ac0) \<and>
           ac_last_altitude_time ac' = ac_last_altitude_time (refresh now dec ac0) \<and>
           ac_squawk ac' = ac_squawk (refresh now dec ac0) \<and>
           ac_callsign ac' = ac_callsign (refresh now dec ac0) \<and>
           (outputs s' = outputs s \<longrightarrow> ac' = refresh now dec ac0)"
  proof cases
    case 1
    then show ?thesis by auto
  next
    case 2
    from commit_props(3,4) [OF 2] show ?thesis by auto
  qed
qed

lemma resolve_known:
  assumes "pending s (group_message grp) = Some g0"
    and "\<not> length (group_copies grp) < 3"
    and "message_decode E (group_message grp) = Inr dec"
    and "aircraft s (dec_address dec) = Some ac0"
  shows "resolve E now s grp =
           resolve_aircraft E now
             (s\<lparr>pending := (pending s)(group_message grp := None),
                calls := calls s @ [Decode (group_message grp)]\<rparr>) grp dec ac0"
  using assms by (simp add: resolve_def Let_def)

lemma resolve_aircraft_ratelimit:
  assumes "old_result now (refresh now dec ac0) = (lrp, lrv, lrd, elapsed)"
    and "find_altitude (FTOM E) now (refresh now dec ac0) = (alt, err, min_receivers)"
    and "tm = build_timestamp_map (user E) (blacklist s) (group_copies grp) []"
    and "\<not> length tm < min_receivers"
  shows "(elapsed < 15 \<and> length tm < lrd) \<or> (elapsed < 2 \<and> length tm = lrd) \<Longrightarrow>
           resolve_aircraft E now s grp dec ac0 =
             (s\<lparr>aircraft := (aircraft s)(dec_address dec \<mapsto> refresh now dec ac0)\<rparr>, None)"
    and "\<not> ((elapsed < 15 \<and> length tm < lrd) \<or> (elapsed < 2 \<and> length tm = lrd)) \<Longrightarrow>
           \<exists>ext. calls (fst (resolve_aircraft E now s grp dec ac0)) = calls s @ Normalize tm # ext"
proof -
  assume "(elapsed < 15 \<and> length tm < lrd) \<or> (elapsed < 2 \<and> length tm = lrd)"
  with assms show "resolve_aircraft E now s grp dec ac0 =
             (s\<lparr>aircraft := (aircraft s)(dec_address dec \<mapsto> refresh now dec ac0)\<rparr>, None)"
    by (auto simp: resolve_aircraft_def Let_def)
next
  assume nc: "\<not> ((elapsed < 15 \<and> length tm < lrd) \<or> (elapsed < 2 \<and> length tm = lrd))"
  let ?ac = "refresh now dec ac0"
  let ?s1 = "s\<lparr>aircraft := (aircraft s)(dec_address dec \<mapsto> ?ac),
               calls := calls s @ [Normalize tm]\<rparr>"
  let ?cc = "collect_clusters (distance E) (Cair E) min_receivers (clocknorm_normalize E tm) []"
  have unfold: "resolve_aircraft E now s grp dec ac0 =
      (case ?cc of
         Inl e \<Rightarrow> (?s1, Some e)
       | Inr clusters \<Rightarrow>
           if clusters = [] then (?s1, None)
           else (case select E elapsed lrp lrv lrd alt err (sorted_stack clusters) (calls ?s1) of
                   (made, Inl e) \<Rightarrow> (?s1\<lparr>calls := made\<rparr>, Some e)
                 | (made, Inr None) \<Rightarrow> (?s1\<lparr>calls := made\<rparr>, None)
                 | (made, Inr (Some result)) \<Rightarrow>
                     commit E now (?s1\<lparr>calls := made\<rparr>) grp dec ?ac alt err result))"
    using assms nc by (auto simp: resolve_aircraft_def Let_def)
  show "\<exists>ext. calls (fst (resolve_aircraft E now s grp dec ac0)) = calls s @ Normalize tm # ext"
  proof (cases ?cc)
    case (Inl e)
    with unfold show ?thesis by simp
  next
    case (Inr clusters)
    show ?thesis
    proof (cases "clusters = []")
      case True
      with unfold Inr show ?thesis by simp
    next
      case False
      obtain made r where sel:
        "select E elapsed lrp lrv lrd alt err (sorted_stack clusters) (calls ?s1) = (made, r)"
        by (cases "select E elapsed lrp lrv lrd alt err (sorted_stack clusters) (calls ?s1)") auto
      from select_extends [of E elapsed lrp lrv lrd alt err "sorted_stack clusters" "calls ?s1"] sel
      obtain ext where made: "made = calls s @ Normalize tm # ext" by auto
      show ?thesis
      proof (cases r)
        case (Inl e)
        with unfold Inr False sel made show ?thesis by simp
      next
        case r: (Inr res)
        show ?thesis
        proof (cases res)
          case None
          with unfold Inr False sel made r show ?thesis by simp
        next
          case (Some result)
          obtain s' e where c: "commit E now (?s1\<lparr>calls := made\<rparr>) grp dec ?ac alt err result = (s', e)"
            by (cases "commit E now (?s1\<lparr>calls := made\<rparr>) grp dec ?ac alt err result") auto
          from commit_props(1) [OF c] have "calls s' = made" by simp
          with unfold Inr False sel made r Some c show ?thesis by simp
        qed
      qed
    qed
  qed
qed

lemma select_calls:
  "\<exists>ext. fst (select E elapsed lrp lrv lrd alt err cs made) = made @ ext \<and>
         (\<forall>c \<in> set ext. \<exists>cl p. c = Solve cl alt err p)"
proof (induction cs arbitrary: made)
  case Nil
  show ?case by simp
next
  case (Cons x cs)
  obtain n c where x: "x = (n, c)" by (cases x) auto
  let ?c = "sort_key (\<lambda>t. fst (snd t)) c"
  show ?case
  proof (cases "(elapsed < 10 \<and> n < lrd) \<or> (elapsed < MLAT_DELAY E - 1 / 2 \<and> n = lrd)")
    case True
    then show ?thesis unfolding x by (subst select_break) auto
  next
    case False
    then have nb: "\<not> (elapsed < 10 \<and> n < lrd)" "\<not> (elapsed < MLAT_DELAY E - 1 / 2 \<and> n = lrd)"
      by blast+
    show ?thesis
    proof (cases "seed_position E lrp ?c")
      case (Inl e)
      with nb show ?thesis unfolding x by (simp add: Let_def)
    next
      case (Inr seed)
      from Cons.IH [of "made @ [Solve ?c alt err seed]"]
      obtain ext where
        ext: "fst (select E elapsed lrp lrv lrd alt err cs (made @ [Solve ?c alt err seed]))
           = made @ Solve ?c alt err seed # ext"
          "\<forall>c \<in> set ext. \<exists>cl p. c = Solve cl alt err p" by auto
      have one: "\<forall>c \<in> set [Solve ?c alt err seed]. \<exists>cl p. c = Solve cl alt err p"
        by (simp del: split_paired_Ex)
      have more: "\<forall>c \<in> set (Solve ?c alt err seed # ext). \<exists>cl p. c = Solve cl alt err p"
        using ext(2) by (simp del: split_paired_Ex)
      show ?thesis
      proof (cases "solver_solve E ?c alt err seed")
        case None
        with ext(1) more show ?thesis unfolding x select_solve [OF nb Inr] by (auto simp del: split_paired_Ex)
      next
        case (Some r)
        obtain ecef cov where r: "r = (ecef, cov)" by (cases r) auto
        show ?thesis
        proof (cases "var_estimate cov > 100000000
           \<or> (elapsed < 2 \<and> var_estimate cov > lrv * (11 / 10))")
          case True
          with Some r ext(1) more show ?thesis unfolding x select_solve [OF nb Inr]
            by (auto simp del: split_paired_Ex)
        next
          case False
          with Some r one show ?thesis unfolding x select_solve [OF nb Inr]
            by (auto simp del: split_paired_Ex)
        qed
      qed
    qed
  qed
qed

lemma resolve_aircraft_unfold:
  assumes "old_result now (refresh now dec ac0) = (lrp, lrv, lrd, elapsed)"
    and "find_altitude (FTOM E) now (refresh now dec ac0) = (alt, err, min_receivers)"
    and "tm = build_timestamp_map (user E) (blacklist s) (group_copies grp) []"
    and "\<not> length tm < min_receivers"
    and "\<not> ((elapsed < 15 \<and> length tm < lrd) \<or> (elapsed < 2 \<and> length tm = lrd))"
    and "s1 = s\<lparr>aircraft := (aircraft s)(dec_address dec \<mapsto> refresh now dec ac0),
                  calls := calls s @ [Normalize tm]\<rparr>"
  shows "resolve_aircraft E now s grp dec ac0 =
      (case collect_clusters (distance E) (Cair E) min_receivers (clocknorm_normalize E tm) [] of
         Inl e \<Rightarrow> (s1, Some e)
       | Inr clusters \<Rightarrow>
           if clusters = [] then (s1, None)
           else (case select E elapsed lrp lrv lrd alt err (sorted_stack clusters) (calls s1) of
                   (made, Inl e) \<Rightarrow> (s1\<lparr>calls := made\<rparr>, Some e)
                 | (made, Inr None) \<Rightarrow> (s1\<lparr>calls := made\<rparr>, None)
                 | (made, Inr (Some result)) \<Rightarrow>
                     commit E now (s1\<lparr>calls := made\<rparr>) grp dec (refresh now dec ac0)
                       alt err result))"
  using assms by (auto simp: resolve_aircraft_def Let_def)

lemma resolve_aircraft_calls:
  assumes "find_altitude (FTOM E) now (refresh now dec ac0) = (alt, err, min_receivers)"
  shows "\<exists>ext. calls (fst (resolve_aircraft E now s grp dec ac0)) = calls s @ ext \<and>
           (\<forall>c \<in> set ext.
              case c of
                Decode m \<Rightarrow> False
              | Normalize tm \<Rightarrow> min_receivers \<le> length tm
              | Solve cl a e p \<Rightarrow> a = alt \<and> e = err)"
proof -
  let ?ac = "refresh now dec ac0"
  let ?ok = "\<lambda>c. case c of
                Decode m \<Rightarrow> False
              | Normalize tm \<Rightarrow> min_receivers \<le> length tm
              | Solve cl a e p \<Rightarrow> a = alt \<and> e = err"
  obtain lrp lrv lrd elapsed where old: "old_result now ?ac = (lrp, lrv, lrd, elapsed)"
    by (cases "old_result now ?ac") auto
  obtain tm where tm: "tm = build_timestamp_map (user E) (blacklist s) (group_copies grp) []"
    by simp
  let ?s0 = "s\<lparr>aircraft := (aircraft s)(dec_address dec \<mapsto> ?ac)\<rparr>"
  show ?thesis
  proof (cases "length tm < min_receivers \<or> (elapsed < 15 \<and> length tm < lrd)
                  \<or> (elapsed < 2 \<and> length tm = lrd)")
    case True
    with old assms tm have "resolve_aircraft E now s grp dec ac0 = (?s0, None)"
      by (auto simp: resolve_aircraft_def Let_def)
    then show ?thesis by simp
  next
    case False
    then have q: "\<not> length tm < min_receivers"
      and nc: "\<not> ((elapsed < 15 \<and> length tm < lrd) \<or> (elapsed < 2 \<and> length tm = lrd))"
      by blast+
    obtain s1 where s1: "s1 = s\<lparr>aircraft := (aircraft s)(dec_address dec \<mapsto> ?ac),
               calls := calls s @ [Normalize tm]\<rparr>" by simp
    then have cs1: "calls s1 = calls s @ [Normalize tm]" by simp
    let ?cc = "collect_clusters (distance E) (Cair E) min_receivers (clocknorm_normalize E tm) []"
    note unfold = resolve_aircraft_unfold [OF old assms tm q nc s1]
    from q have n: "?ok (Normalize tm)" by simp
    show ?thesis
    proof (cases ?cc)
      case (Inl e)
      with unfold n cs1 show ?thesis by simp
    next
      case (Inr clusters)
      show ?thesis
      proof (cases "clusters = []")
        case True
        with unfold Inr n cs1 show ?thesis by simp
      next
        case False
        obtain made r where sel:
          "select E elapsed lrp lrv lrd alt err (sorted_stack clusters) (calls s1) = (made, r)"
          by (cases "select E elapsed lrp lrv lrd alt err (sorted_stack clusters) (calls s1)") auto
        from select_calls [of E elapsed lrp lrv lrd alt err "sorted_stack clusters" "calls s1"]
          sel cs1
        obtain ext where made: "made = calls s @ Normalize tm # ext"
          and ext: "\<forall>c \<in> set ext. \<exists>cl p. c = Solve cl alt err p" by auto
        from ext n have all: "\<forall>c \<in> set (Normalize tm # ext). ?ok c" by auto
        have "calls (fst (resolve_aircraft E now s grp dec ac0)) = made"
        proof (cases r)
          case (Inl e)
          with unfold Inr False sel show ?thesis by simp
        next
          case r: (Inr res)
          show ?thesis
          proof (cases res)
            case None
            with unfold Inr False sel r show ?thesis by simp
          next
            case (Some result)
            obtain s' e where c: "commit E now (s1\<lparr>calls := made\<rparr>) grp dec ?ac alt err result = (s', e)"
              by (cases "commit E now (s1\<lparr>calls := made\<rparr>) grp dec ?ac alt err result") auto
            from commit_props(1) [OF c] have "calls s' = made" by simp
            with unfold Inr False sel r Some c show ?thesis by simp
          qed
        qed
        with made all show ?thesis by blast
      qed
    qed
  qed
qed

lemma refresh_last_result:
  "ac_last_result_position (refresh now dec ac0) = ac_last_result_position ac0"
  "ac_last_result_var (refresh now dec ac0) = ac_last_result_var ac0"
  "ac_last_result_distinct (refresh now dec ac0) = ac_last_result_distinct ac0"
  "ac_last_result_time (refresh now dec ac0) = ac_last_result_time ac0"
  by (simp_all add: refresh_def Let_def split: option.splits)

lemma old_result_refresh: "old_result now (refresh now dec ac0) = old_result now ac0"
  by (simp only: old_result_def refresh_last_result)

lemma select_skip:
  "\<forall>x \<in> set pre. \<not> stops E elapsed lrd (fst x) \<and> passed_over E elapsed lrp lrv alt err (snd x)
     \<Longrightarrow> select E elapsed lrp lrv lrd alt err (pre @ rest) made =
         select E elapsed lrp lrv lrd alt err rest (made @ map (solve_call E lrp alt err) pre)"
proof (induction pre arbitrary: made)
  case Nil
  show ?case by simp
next
  case (Cons x pre)
  obtain n c where x: "x = (n, c)" by (cases x) auto
  let ?c = "sort_key (\<lambda>t. fst (snd t)) c"
  from Cons.prems x have nb: "\<not> (elapsed < 10 \<and> n < lrd)"
    "\<not> (elapsed < MLAT_DELAY E - 1 / 2 \<and> n = lrd)"
    by (auto simp: stops_def)
  from Cons.prems x have po: "passed_over E elapsed lrp lrv alt err c" by simp
  then obtain seed where seed: "seed_position E lrp ?c = Inr seed"
    by (cases "seed_position E lrp ?c") (auto simp: passed_over_def)
  from po seed have rej: "case solver_solve E ?c alt err seed of
             None \<Rightarrow> True
           | Some (ecef, ecef_cov) \<Rightarrow>
               var_estimate ecef_cov > 100000000 \<or>
               (elapsed < 2 \<and> var_estimate ecef_cov > lrv * (11 / 10))"
    by (simp add: passed_over_def)
  have call: "solve_call E lrp alt err x = Solve ?c alt err seed"
    by (simp add: solve_call_def x seed)
  have "select E elapsed lrp lrv lrd alt err ((n, c) # pre @ rest) made =
        select E elapsed lrp lrv lrd alt err (pre @ rest) (made @ [Solve ?c alt err seed])"
    by (subst select_solve [OF nb seed]) (use rej in \<open>auto split: option.splits\<close>)
  also have "\<dots> = select E elapsed lrp lrv lrd alt err rest
      ((made @ [Solve ?c alt err seed]) @ map (solve_call E lrp alt err) pre)"
    using Cons.prems by (intro Cons.IH) simp
  finally show ?case using call by (simp add: x del: select.simps)
qed

lemma select_trace:
  "\<exists>k \<le> length stack. fst (select E elapsed lrp lrv lrd alt err stack made)
      = made @ map (solve_call E lrp alt err) (take k stack)"
proof (induction stack arbitrary: made)
  case Nil
  show ?case by simp
next
  case (Cons x stack)
  obtain n c where x: "x = (n, c)" by (cases x) auto
  let ?c = "sort_key (\<lambda>t. fst (snd t)) c"
  have zero: "\<exists>k \<le> length (x # stack). made = made @ map (solve_call E lrp alt err) (take k (x # stack))"
    by (rule exI [of _ 0]) simp
  show ?case
  proof (cases "(elapsed < 10 \<and> n < lrd) \<or> (elapsed < MLAT_DELAY E - 1 / 2 \<and> n = lrd)")
    case True
    from select_break [OF True] zero show ?thesis unfolding x by simp
  next
    case False
    then have nb: "\<not> (elapsed < 10 \<and> n < lrd)" "\<not> (elapsed < MLAT_DELAY E - 1 / 2 \<and> n = lrd)"
      by blast+
    show ?thesis
    proof (cases "seed_position E lrp ?c")
      case (Inl e)
      with nb zero show ?thesis unfolding x by (simp add: Let_def)
    next
      case (Inr seed)
      have call: "solve_call E lrp alt err x = Solve ?c alt err seed"
        by (simp add: solve_call_def x Inr)
      from Cons.IH [of "made @ [Solve ?c alt err seed]"] obtain k where
        k: "k \<le> length stack"
          "fst (select E elapsed lrp lrv lrd alt err stack (made @ [Solve ?c alt err seed]))
             = (made @ [Solve ?c alt err seed]) @ map (solve_call E lrp alt err) (take k stack)"
        by auto
      have more: "\<exists>k \<le> length (x # stack).
          fst (select E elapsed lrp lrv lrd alt err stack (made @ [Solve ?c alt err seed]))
            = made @ map (solve_call E lrp alt err) (take k (x # stack))"
        using k call by (intro exI [of _ "Suc k"]) simp
      have one: "\<exists>k \<le> length (x # stack).
          made @ [Solve ?c alt err seed] = made @ map (solve_call E lrp alt err) (take k (x # stack))"
        using call by (intro exI [of _ "Suc 0"]) simp
      show ?thesis
      proof (cases "solver_solve E ?c alt err seed")
        case None
        with more show ?thesis unfolding x select_solve [OF nb Inr] by simp
      next
        case (Some r)
        obtain ecef cov where r: "r = (ecef, cov)" by (cases r) auto
        from Some r more one show ?thesis unfolding x select_solve [OF nb Inr]
          by (simp del: split_paired_Ex)
      qed
    qed
  qed
qed

lemma resolve_loop:
  assumes "pending s (group_message grp) = Some g0"
    and "\<not> length (group_copies grp) < 3"
    and "message_decode E (group_message grp) = Inr dec"
    and "aircraft s (dec_address dec) = Some ac0"
    and "old_result now ac0 = (lrp, lrv, lrd, elapsed)"
    and "find_altitude (FTOM E) now (refresh now dec ac0) = (alt, err, min_receivers)"
    and "tm = build_timestamp_map (user E) (blacklist s) (group_copies grp) []"
    and "s1 = s\<lparr>pending := (pending s)(group_message grp := None),
                  aircraft := (aircraft s)(dec_address dec \<mapsto> refresh now dec ac0),
                  calls := calls s @ [Decode (group_message grp)]\<rparr>"
    and "s2 = s1\<lparr>calls := calls s @ [Decode (group_message grp), Normalize tm]\<rparr>"
  shows "resolve E now s grp =
      (if length tm < min_receivers \<or> (elapsed < 15 \<and> length tm < lrd)
            \<or> (elapsed < 2 \<and> length tm = lrd)
       then (s1, None)
       else (case collect_clusters (distance E) (Cair E) min_receivers
                   (clocknorm_normalize E tm) [] of
               Inl e \<Rightarrow> (s2, Some e)
             | Inr clusters \<Rightarrow>
                 if clusters = [] then (s2, None)
                 else (case select E elapsed lrp lrv lrd alt err (sorted_stack clusters)
                              (calls s2) of
                         (made, Inl e) \<Rightarrow> (s2\<lparr>calls := made\<rparr>, Some e)
                       | (made, Inr None) \<Rightarrow> (s2\<lparr>calls := made\<rparr>, None)
                       | (made, Inr (Some result)) \<Rightarrow>
                           commit E now (s2\<lparr>calls := made\<rparr>) grp dec (refresh now dec ac0)
                             alt err result)))"
  unfolding resolve_known [OF assms(1-4)]
  using assms(5-9)
  by (auto simp: resolve_aircraft_def Let_def old_result_refresh)

lemma resolve_by_select:
  assumes "pending s (group_message grp) = Some g0"
    and "\<not> length (group_copies grp) < 3"
    and "message_decode E (group_message grp) = Inr dec"
    and "aircraft s (dec_address dec) = Some ac0"
    and "old_result now (refresh now dec ac0) = (lrp, lrv, lrd, elapsed)"
    and "find_altitude (FTOM E) now (refresh now dec ac0) = (alt, err, min_receivers)"
    and "tm = build_timestamp_map (user E) (blacklist s) (group_copies grp) []"
    and "\<not> length tm < min_receivers"
    and "\<not> ((elapsed < 15 \<and> length tm < lrd) \<or> (elapsed < 2 \<and> length tm = lrd))"
    and "collect_clusters (distance E) (Cair E) min_receivers (clocknorm_normalize E tm) []
           = Inr clusters"
    and "sel = select E elapsed lrp lrv lrd alt err (sorted_stack clusters)
                 (calls s @ [Decode (group_message grp), Normalize tm])"
  shows "calls (fst (resolve E now s grp)) = fst sel"
    and "snd sel = Inr None \<Longrightarrow>
           outputs (fst (resolve E now s grp)) = outputs s \<and> snd (resolve E now s grp) = None \<and>
           aircraft (fst (resolve E now s grp)) =
             (aircraft s)(dec_address dec \<mapsto> refresh now dec ac0)"
proof -
  let ?s1 = "s\<lparr>pending := (pending s)(group_message grp := None),
               aircraft := (aircraft s)(dec_address dec \<mapsto> refresh now dec ac0),
               calls := calls s @ [Decode (group_message grp)]\<rparr>"
  let ?s2 = "?s1\<lparr>calls := calls s @ [Decode (group_message grp), Normalize tm]\<rparr>"
  from assms(5) have old: "old_result now ac0 = (lrp, lrv, lrd, elapsed)"
    by (simp add: old_result_refresh)
  have c2: "calls ?s2 = calls s @ [Decode (group_message grp), Normalize tm]" by simp
  from resolve_loop [OF assms(1-4) old assms(6,7) refl refl] assms(8,9,10)
  have eq: "resolve E now s grp =
      (if clusters = [] then (?s2, None)
       else (case select E elapsed lrp lrv lrd alt err (sorted_stack clusters) (calls ?s2) of
               (made, Inl e) \<Rightarrow> (?s2\<lparr>calls := made\<rparr>, Some e)
             | (made, Inr None) \<Rightarrow> (?s2\<lparr>calls := made\<rparr>, None)
             | (made, Inr (Some result)) \<Rightarrow>
                 commit E now (?s2\<lparr>calls := made\<rparr>) grp dec (refresh now dec ac0)
                   alt err result))"
    by simp
  obtain made r where sel: "sel = (made, r)" by (cases sel) auto
  show "calls (fst (resolve E now s grp)) = fst sel"
  proof (cases "clusters = []")
    case True
    with eq assms(11) show ?thesis by (simp add: sorted_stack_def)
  next
    case False
    show ?thesis
    proof (cases r)
      case (Inl e)
      with eq False sel assms(11) c2 show ?thesis by simp
    next
      case r: (Inr res)
      show ?thesis
      proof (cases res)
        case None
        with eq False sel assms(11) c2 r show ?thesis by simp
      next
        case (Some result)
        obtain s' e where c: "commit E now (?s2\<lparr>calls := made\<rparr>) grp dec (refresh now dec ac0)
                   alt err result = (s', e)"
          by (cases "commit E now (?s2\<lparr>calls := made\<rparr>) grp dec (refresh now dec ac0)
                   alt err result") auto
        from commit_props(1) [OF c] have "calls s' = made" by simp
        with eq False sel assms(11) c2 r Some c show ?thesis by simp
      qed
    qed
  qed
  show "outputs (fst (resolve E now s grp)) = outputs s \<and> snd (resolve E now s grp) = None \<and>
        aircraft (fst (resolve E now s grp)) =
          (aircraft s)(dec_address dec \<mapsto> refresh now dec ac0)"
    if "snd sel = Inr None"
  proof (cases "clusters = []")
    case True
    with eq show ?thesis by simp
  next
    case False
    with eq that sel assms(11) c2 show ?thesis by simp
  qed
qed

text \<open>
  A whole run: 20 s after a result with distinct count 5, four receivers give one cluster
  of distinct count 4; the solver is called once and its result, which has no
  covariance, is accepted and committed.
\<close>

lemma demo_run:
  "resolve demo_externals 115 demo_tracker demo_group =
     (demo_tracker\<lparr>
        pending := (pending demo_tracker)(''m'' := None),
        aircraft := (aircraft demo_tracker)
          (7 \<mapsto> \<lparr>ac_altitude = Some 30000, ac_last_altitude_time = 115,
                 ac_squawk = Some ''7000'', ac_callsign = Some ''TEST'',
                 ac_last_result_position = Some (1, 2, 3), ac_last_result_var = 100000000,
                 ac_last_result_distinct = 4, ac_last_result_time = 115,
                 ac_kalman =
                   [(0, [(3, 0, 0), (4, 1 / 50000, 0), (2, 1 / 20000, 0), (1, 1 / 10000, 0)],
                     Some 9144, Some (762 / 10), (1, 2, 3), None, 4)]\<rparr>),
        outputs :=
          [(0, 7, (1, 2, 3), None, [3, 4, 2, 1], 4,
            [(0, [(3, 0, 0), (4, 1 / 50000, 0), (2, 1 / 20000, 0), (1, 1 / 10000, 0)],
              Some 9144, Some (762 / 10), (1, 2, 3), None, 4)])],
        calls :=
          [Decode ''m'',
           Normalize [(1, [1 / 10000]), (2, [1 / 20000]), (3, [0]), (4, [1 / 50000])],
           Solve [(3, 0, 0), (4, 1 / 50000, 0), (2, 1 / 20000, 0), (1, 1 / 10000, 0)]
             (Some 9144) (Some (762 / 10)) (0, 0, 0)]\<rparr>,
      None)"
  by (simp add: resolve_def resolve_aircraft_def Let_def old_result_def find_altitude_def
        refresh_def demo_externals_def demo_tracker_def idle_tracker_def demo_group_def
        demo_decoded_def demo_aircraft_def cluster_timestamps_def flatten_def
        cluster_group.simps form_cluster_def spread_def sorted_stack_def seed_position_def
        var_estimate_def commit_def eval_nat_numeral)

text \<open>
  Claim C3. When \<open>_resolve\<close> reaches the loop, its solver calls are made on an initial
  part of the clusters sorted by distinct-receiver count, largest first. When the loop
  comes to a cluster whose distinct count is lower than the old result's with less than
  10 s elapsed, or equal to it with less than \<open>MLAT_DELAY - 0.5\<close> s elapsed, \<open>_resolve\<close>
  ends there: no solver call for that cluster or any after it, no output, no exception,
  and the aircraft is as the refresh left it, its stored result untouched.
  A cluster for which the solver returns no estimate (or one that is turned down) is
  passed over, and the next cluster is tried.
\<close>

theorem resolve_tries_largest_first:
  assumes "pending s (group_message grp) = Some g0"
    and "\<not> length (group_copies grp) < 3"
    and "message_decode E (group_message grp) = Inr dec"
    and "aircraft s (dec_address dec) = Some ac0"
    and "old_result now (refresh now dec ac0) = (lrp, lrv, lrd, elapsed)"
    and "find_altitude (FTOM E) now (refresh now dec ac0) = (alt, err, min_receivers)"
    and "tm = build_timestamp_map (user E) (blacklist s) (group_copies grp) []"
    and "\<not> length tm < min_receivers"
    and "\<not> ((elapsed < 15 \<and> length tm < lrd) \<or> (elapsed < 2 \<and> length tm = lrd))"
    and "collect_clusters (distance E) (Cair E) min_receivers (clocknorm_normalize E tm) []
           = Inr clusters"
    and "stack = sorted_stack clusters"
  shows
    "sorted (rev (map fst stack)) \<and> set stack = set clusters \<and> length stack = length clusters \<and>
     (\<exists>k \<le> length stack.
        calls (fst (resolve E now s grp)) =
          calls s @ [Decode (group_message grp), Normalize tm]
            @ map (solve_call E lrp alt err) (take k stack)) \<and>
     (\<forall>i < length stack.
        (\<forall>j < i. \<not> stops E elapsed lrd (fst (stack ! j)) \<and>
                  passed_over E elapsed lrp lrv alt err (snd (stack ! j))) \<and>
        stops E elapsed lrd (fst (stack ! i)) \<longrightarrow>
          calls (fst (resolve E now s grp)) =
            calls s @ [Decode (group_message grp), Normalize tm]
              @ map (solve_call E lrp alt err) (take i stack) \<and>
          outputs (fst (resolve E now s grp)) = outputs s \<and>
          snd (resolve E now s grp) = None \<and>
          aircraft (fst (resolve E now s grp)) =
            (aircraft s)(dec_address dec \<mapsto> refresh now dec ac0)) \<and>
     (\<forall>i < length stack.
        (\<forall>j < i. \<not> stops E elapsed lrd (fst (stack ! j)) \<and>
                  passed_over E elapsed lrp lrv alt err (snd (stack ! j))) \<and>
        \<not> stops E elapsed lrd (fst (stack ! i)) \<and>
        (lrp \<noteq> None \<or> snd (stack ! i) \<noteq> []) \<longrightarrow>
          (\<exists>ext. calls (fst (resolve E now s grp)) =
             calls s @ [Decode (group_message grp), Normalize tm]
               @ map (solve_call E lrp alt err) (take (Suc i) stack) @ ext)) \<and>
     ((\<forall>x \<in> set stack. \<not> stops E elapsed lrd (fst x) \<and>
                          passed_over E elapsed lrp lrv alt err (snd x)) \<longrightarrow>
        calls (fst (resolve E now s grp)) =
          calls s @ [Decode (group_message grp), Normalize tm]
            @ map (solve_call E lrp alt err) stack \<and>
        outputs (fst (resolve E now s grp)) = outputs s \<and>
        snd (resolve E now s grp) = None \<and>
        aircraft (fst (resolve E now s grp)) =
          (aircraft s)(dec_address dec \<mapsto> refresh now dec ac0))"
proof -
  let ?made = "calls s @ [Decode (group_message grp), Normalize tm]"
  let ?sel = "select E elapsed lrp lrv lrd alt err stack ?made"
  from assms(11) have sel: "?sel = select E elapsed lrp lrv lrd alt err (sorted_stack clusters) ?made"
    by simp
  note by_sel = resolve_by_select [OF assms(1-10) sel]
  have "rev (map fst stack) = map fst (sort_key fst clusters)"
    by (simp add: assms(11) sorted_stack_def rev_map)
  then have P1: "sorted (rev (map fst stack))" by simp
  have P1': "set stack = set clusters" "length stack = length clusters"
    by (simp_all add: assms(11) sorted_stack_def)
  from select_trace [of stack E elapsed lrp lrv lrd alt err ?made] by_sel(1)
  have P2: "\<exists>k \<le> length stack.
        calls (fst (resolve E now s grp)) = ?made @ map (solve_call E lrp alt err) (take k stack)"
    by simp
  have skip: "?sel = select E elapsed lrp lrv lrd alt err (drop i stack)
                       (?made @ map (solve_call E lrp alt err) (take i stack))"
    if "i \<le> length stack"
      and "\<forall>j < i. \<not> stops E elapsed lrd (fst (stack ! j)) \<and>
                  passed_over E elapsed lrp lrv alt err (snd (stack ! j))"
    for i
  proof -
    have "\<forall>x \<in> set (take i stack). \<not> stops E elapsed lrd (fst x) \<and>
            passed_over E elapsed lrp lrv alt err (snd x)"
    proof
      fix x assume "x \<in> set (take i stack)"
      then obtain j where "j < length (take i stack)" "take i stack ! j = x"
        by (auto simp: in_set_conv_nth)
      with that show "\<not> stops E elapsed lrd (fst x) \<and>
            passed_over E elapsed lrp lrv alt err (snd x)" by auto
    qed
    from select_skip [OF this, of "drop i stack" ?made] show ?thesis by simp
  qed
  have P3: "calls (fst (resolve E now s grp)) =
            ?made @ map (solve_call E lrp alt err) (take i stack) \<and>
          outputs (fst (resolve E now s grp)) = outputs s \<and>
          snd (resolve E now s grp) = None \<and>
          aircraft (fst (resolve E now s grp)) =
            (aircraft s)(dec_address dec \<mapsto> refresh now dec ac0)"
    if i: "i < length stack"
      and pre: "\<forall>j < i. \<not> stops E elapsed lrd (fst (stack ! j)) \<and>
                  passed_over E elapsed lrp lrv alt err (snd (stack ! j))"
      and st: "stops E elapsed lrd (fst (stack ! i))"
    for i
  proof -
    obtain n c where x: "stack ! i = (n, c)" by (cases "stack ! i") auto
    from i x have dr: "drop i stack = (n, c) # drop (Suc i) stack"
      by (simp add: Cons_nth_drop_Suc [symmetric])
    from st x have "(elapsed < 10 \<and> n < lrd) \<or> (elapsed < MLAT_DELAY E - 1 / 2 \<and> n = lrd)"
      by (simp add: stops_def)
    from select_break [OF this] skip [OF _ pre] i dr
    have "?sel = (?made @ map (solve_call E lrp alt err) (take i stack), Inr None)"
      by simp
    with by_sel show ?thesis by simp
  qed
  have P4: "\<exists>ext. calls (fst (resolve E now s grp)) =
             ?made @ map (solve_call E lrp alt err) (take (Suc i) stack) @ ext"
    if i: "i < length stack"
      and pre: "\<forall>j < i. \<not> stops E elapsed lrd (fst (stack ! j)) \<and>
                  passed_over E elapsed lrp lrv alt err (snd (stack ! j))"
      and st: "\<not> stops E elapsed lrd (fst (stack ! i))"
      and sd: "lrp \<noteq> None \<or> snd (stack ! i) \<noteq> []"
    for i
  proof -
    obtain n c where x: "stack ! i = (n, c)" by (cases "stack ! i") auto
    let ?c = "sort_key (\<lambda>t. fst (snd t)) c"
    let ?pre = "?made @ map (solve_call E lrp alt err) (take i stack)"
    from i x have dr: "drop i stack = (n, c) # drop (Suc i) stack"
      by (simp add: Cons_nth_drop_Suc [symmetric])
    from st x have nb: "\<not> (elapsed < 10 \<and> n < lrd)"
      "\<not> (elapsed < MLAT_DELAY E - 1 / 2 \<and> n = lrd)"
      by (auto simp: stops_def)
    from sd x obtain seed where seed: "seed_position E lrp ?c = Inr seed"
    proof (cases lrp)
      case None
      with sd x have "c \<noteq> []" by simp
      then have "?c \<noteq> []" by (metis length_0_conv length_sort)
      then obtain t ts where "?c = t # ts" by (cases ?c) auto
      with None that show ?thesis by (simp add: seed_position_def)
    next
      case (Some p)
      with that show ?thesis by (simp add: seed_position_def)
    qed
    have call: "solve_call E lrp alt err (stack ! i) = Solve ?c alt err seed"
      by (simp add: solve_call_def x seed)
    from i have tk: "take (Suc i) stack = take i stack @ [stack ! i]"
      by (simp add: take_Suc_conv_app_nth)
    from select_extends [of E elapsed lrp lrv lrd alt err "drop (Suc i) stack"
        "?pre @ [Solve ?c alt err seed]"]
    obtain ext where ext: "fst (select E elapsed lrp lrv lrd alt err (drop (Suc i) stack)
        (?pre @ [Solve ?c alt err seed])) = (?pre @ [Solve ?c alt err seed]) @ ext" by auto
    have "\<exists>ext. fst (select E elapsed lrp lrv lrd alt err ((n, c) # drop (Suc i) stack) ?pre)
            = (?pre @ [Solve ?c alt err seed]) @ ext"
      unfolding select_solve [OF nb seed] using ext
      by (auto split: option.splits simp del: select.simps)
    with skip [OF _ pre] i dr by_sel(1) call tk show ?thesis by simp
  qed
  have P5: "calls (fst (resolve E now s grp)) = ?made @ map (solve_call E lrp alt err) stack \<and>
        outputs (fst (resolve E now s grp)) = outputs s \<and>
        snd (resolve E now s grp) = None \<and>
        aircraft (fst (resolve E now s grp)) =
          (aircraft s)(dec_address dec \<mapsto> refresh now dec ac0)"
    if "\<forall>x \<in> set stack. \<not> stops E elapsed lrd (fst x) \<and>
                          passed_over E elapsed lrp lrv alt err (snd x)"
  proof -
    from select_skip [OF that, of "[]" ?made]
    have "?sel = (?made @ map (solve_call E lrp alt err) stack, Inr None)" by simp
    with by_sel show ?thesis by simp
  qed
  from P1 P1' P2 P3 P4 P5 show ?thesis by (simp del: split_paired_All split_paired_Ex)
qed

theorem resolve_tries_largest_first_witness:
  "sorted_stack [(3, small_cluster), (4, wide_cluster)] = [(4, wide_cluster), (3, small_cluster)] \<and>
   calls (fst (resolve split_externals 100 wide_tracker wide_group)) =
     [Decode ''m'',
      Normalize [(1, [1 / 10000]), (2, [5 / 100000]), (3, [0]), (4, [2 / 100000]),
                 (5, [3 / 100000]), (6, [4 / 100000]), (7, [6 / 100000])]] \<and>
   outputs (fst (resolve split_externals 100 wide_tracker wide_group)) = [] \<and>
   snd (resolve split_externals 100 wide_tracker wide_group) = None \<and>
   calls (fst (resolve split_externals 115 wide_tracker wide_group)) =
     [Decode ''m'',
      Normalize [(1, [1 / 10000]), (2, [5 / 100000]), (3, [0]), (4, [2 / 100000]),
                 (5, [3 / 100000]), (6, [4 / 100000]), (7, [6 / 100000])],
      Solve wide_cluster (Some 9144) (Some (762 / 10)) (0, 0, 0),
      Solve small_cluster (Some 9144) (Some (762 / 10)) (0, 0, 0)] \<and>
   outputs (fst (resolve split_externals 115 wide_tracker wide_group)) = []"
proof -
  let ?tm = "[(1 :: nat, [1 / 10000 :: real]), (2, [5 / 100000]), (3, [0]), (4, [2 / 100000]),
              (5, [3 / 100000]), (6, [4 / 100000]), (7, [6 / 100000])]"
  let ?stack = "[(4 :: nat, wide_cluster), (3, small_cluster)]"
  note ext = split_externals_def silent_externals_def demo_externals_def
  note trk = wide_tracker_def idle_tracker_def wide_group_def demo_decoded_def demo_aircraft_def
  have st: "?stack = sorted_stack [(3, small_cluster), (4, wide_cluster)]"
    by (simp add: sorted_stack_def)
  have h1: "pending wide_tracker (group_message wide_group) = Some wide_group"
    and h2: "\<not> length (group_copies wide_group) < 3"
    and h3: "message_decode split_externals (group_message wide_group) = Inr demo_decoded"
    and h4: "aircraft wide_tracker (dec_address demo_decoded) = Some demo_aircraft"
    by (simp_all add: ext trk)
  have o1: "old_result 100 (refresh 100 demo_decoded demo_aircraft) = (Some (0, 0, 0), 100, 5, 5)"
    and o2: "old_result 115 (refresh 115 demo_decoded demo_aircraft) = (Some (0, 0, 0), 100, 5, 20)"
    by (simp_all add: old_result_def refresh_def trk)
  have f1: "find_altitude (FTOM split_externals) 100 (refresh 100 demo_decoded demo_aircraft)
              = (Some 9144, Some (762 / 10), 3)"
    and f2: "find_altitude (FTOM split_externals) 115 (refresh 115 demo_decoded demo_aircraft)
              = (Some 9144, Some (762 / 10), 3)"
    by (simp_all add: find_altitude_def refresh_def ext trk)
  have tm: "?tm = build_timestamp_map (user split_externals) (blacklist wide_tracker)
                    (group_copies wide_group) []"
    by (simp add: ext trk)
  have q: "\<not> length ?tm < 3" by simp
  have n1: "\<not> (((5 :: real) < 15 \<and> length ?tm < 5) \<or> ((5 :: real) < 2 \<and> length ?tm = 5))"
    and n2: "\<not> (((20 :: real) < 15 \<and> length ?tm < 5) \<or> ((20 :: real) < 2 \<and> length ?tm = 5))"
    by simp_all
  have cc: "collect_clusters (distance split_externals) (Cair split_externals) 3
              (clocknorm_normalize split_externals ?tm) []
            = Inr [(3, small_cluster), (4, wide_cluster)]"
    by (simp add: ext cluster_timestamps_def flatten_def cluster_group.simps form_cluster_def
          spread_def small_cluster_def wide_cluster_def)
  have srt: "sort_key (\<lambda>t. fst (snd t)) wide_cluster = wide_cluster"
    "sort_key (\<lambda>t. fst (snd t)) small_cluster = small_cluster"
    by (simp_all add: wide_cluster_def small_cluster_def)
  have m: "group_message wide_group = ''m''" "calls wide_tracker = []" "outputs wide_tracker = []"
    by (simp_all add: trk)
  have stop0: "stops split_externals 5 5 (fst (?stack ! 0))"
    by (simp add: stops_def)
  have pass: "\<forall>x \<in> set ?stack. \<not> stops split_externals 20 5 (fst x) \<and>
                passed_over split_externals 20 (Some (0, 0, 0)) 100 (Some 9144) (Some (762 / 10)) (snd x)"
    by (simp add: stops_def passed_over_def srt seed_position_def ext)
  have calls: "map (solve_call split_externals (Some (0, 0, 0)) (Some 9144) (Some (762 / 10))) ?stack
      = [Solve wide_cluster (Some 9144) (Some (762 / 10)) (0, 0, 0),
         Solve small_cluster (Some 9144) (Some (762 / 10)) (0, 0, 0)]"
    by (simp add: solve_call_def srt seed_position_def)
  note at100 = resolve_tries_largest_first [OF h1 h2 h3 h4 o1 f1 tm q n1 cc st]
  note at115 = resolve_tries_largest_first [OF h1 h2 h3 h4 o2 f2 tm q n2 cc st]
  note stop_rule = at100 [THEN conjunct2, THEN conjunct2, THEN conjunct2, THEN conjunct2,
      THEN conjunct1, rule_format, of 0]
  note pass_rule = at115 [THEN conjunct2, THEN conjunct2, THEN conjunct2, THEN conjunct2,
      THEN conjunct2, THEN conjunct2, THEN mp]
  from stop_rule stop0
  have A: "calls (fst (resolve split_externals 100 wide_tracker wide_group)) =
             [Decode ''m'', Normalize ?tm] \<and>
           outputs (fst (resolve split_externals 100 wide_tracker wide_group)) = [] \<and>
           snd (resolve split_externals 100 wide_tracker wide_group) = None"
    by (simp add: m)
  from pass_rule [OF pass] calls
  have B: "calls (fst (resolve split_externals 115 wide_tracker wide_group)) =
     [Decode ''m'', Normalize ?tm,
      Solve wide_cluster (Some 9144) (Some (762 / 10)) (0, 0, 0),
      Solve small_cluster (Some 9144) (Some (762 / 10)) (0, 0, 0)] \<and>
   outputs (fst (resolve split_externals 115 wide_tracker wide_group)) = []"
    by (simp add: m)
  from st A B show ?thesis by simp
qed

text \<open>
  Claim C4. Once the blacklist has been applied and the minimum-receiver check has
  passed, \<open>_resolve\<close> returns at the rate limit exactly when less than 15 s have elapsed
  and the map holds fewer receivers than the old distinct count, or less than 2 s have
  elapsed and it holds exactly as many. It then leaves the state as it is after the
  refresh, with no call to the normalizer and no output; otherwise the normalizer is
  called. A map with more receivers than the old distinct count is never held back.
\<close>

theorem resolve_ratelimit:
  assumes "pending s (group_message grp) = Some g0"
    and "\<not> length (group_copies grp) < 3"
    and "message_decode E (group_message grp) = Inr dec"
    and "aircraft s (dec_address dec) = Some ac0"
    and "old_result now (refresh now dec ac0) = (lrp, lrv, lrd, elapsed)"
    and "find_altitude (FTOM E) now (refresh now dec ac0) = (alt, err, min_receivers)"
    and "tm = build_timestamp_map (user E) (blacklist s) (group_copies grp) []"
    and "\<not> length tm < min_receivers"
  shows "((elapsed < 15 \<and> length tm < lrd) \<or> (elapsed < 2 \<and> length tm = lrd) \<longrightarrow>
            resolve E now s grp =
              (s\<lparr>pending := (pending s)(group_message grp := None),
                 aircraft := (aircraft s)(dec_address dec \<mapsto> refresh now dec ac0),
                 calls := calls s @ [Decode (group_message grp)]\<rparr>, None)) \<and>
         (\<not> ((elapsed < 15 \<and> length tm < lrd) \<or> (elapsed < 2 \<and> length tm = lrd)) \<longrightarrow>
            take (length (calls s) + 2) (calls (fst (resolve E now s grp)))
              = calls s @ [Decode (group_message grp), Normalize tm]) \<and>
         (lrd < length tm \<longrightarrow>
            take (length (calls s) + 2) (calls (fst (resolve E now s grp)))
              = calls s @ [Decode (group_message grp), Normalize tm])"
proof -
  let ?s0 = "s\<lparr>pending := (pending s)(group_message grp := None),
               calls := calls s @ [Decode (group_message grp)]\<rparr>"
  note known = resolve_known [OF assms(1-4), of now]
  from assms(7) have tm: "tm = build_timestamp_map (user E) (blacklist ?s0) (group_copies grp) []"
    by simp
  note rl = resolve_aircraft_ratelimit [OF assms(5,6) tm assms(8)]
  have A: "resolve E now s grp =
              (s\<lparr>pending := (pending s)(group_message grp := None),
                 aircraft := (aircraft s)(dec_address dec \<mapsto> refresh now dec ac0),
                 calls := calls s @ [Decode (group_message grp)]\<rparr>, None)"
    if "(elapsed < 15 \<and> length tm < lrd) \<or> (elapsed < 2 \<and> length tm = lrd)"
    using rl(1) [OF that] known by simp
  have B: "take (length (calls s) + 2) (calls (fst (resolve E now s grp)))
              = calls s @ [Decode (group_message grp), Normalize tm]"
    if "\<not> ((elapsed < 15 \<and> length tm < lrd) \<or> (elapsed < 2 \<and> length tm = lrd))"
  proof -
    from rl(2) [OF that] known obtain ext where
      "calls (fst (resolve E now s grp)) = (calls s @ [Decode (group_message grp), Normalize tm]) @ ext"
      by auto
    then show ?thesis by simp
  qed
  from A B show ?thesis by auto
qed

theorem resolve_ratelimit_witness:
  "resolve demo_externals 100 demo_tracker demo_group =
     (demo_tracker\<lparr>pending := (pending demo_tracker)(''m'' := None),
        aircraft := (aircraft demo_tracker)(7 \<mapsto> refresh 100 demo_decoded demo_aircraft),
        calls := [Decode ''m'']\<rparr>, None) \<and>
   take (length (calls demo_tracker) + 2)
     (calls (fst (resolve demo_externals 115 demo_tracker demo_group))) =
     [Decode ''m'',
      Normalize [(1, [1 / 10000]), (2, [5 / 100000]), (3, [0]), (4, [2 / 100000])]] \<and>
   take (length (calls recent_tracker) + 2)
     (calls (fst (resolve demo_externals 96 recent_tracker demo_group))) =
     [Decode ''m'',
      Normalize [(1, [1 / 10000]), (2, [5 / 100000]), (3, [0]), (4, [2 / 100000])]] \<and>
   length (outputs (fst (resolve demo_externals 115 demo_tracker demo_group))) = 1"
proof -
  let ?tm = "[(1 :: nat, [1 / 10000 :: real]), (2, [5 / 100000]), (3, [0]), (4, [2 / 100000])]"
  have h1: "pending demo_tracker (group_message demo_group) = Some demo_group"
    and h2: "\<not> length (group_copies demo_group) < 3"
    and h3: "message_decode demo_externals (group_message demo_group) = Inr demo_decoded"
    and h4: "aircraft demo_tracker (dec_address demo_decoded) = Some demo_aircraft"
    by (simp_all add: demo_externals_def demo_tracker_def idle_tracker_def demo_group_def
          demo_decoded_def demo_aircraft_def)
  have o1: "old_result 100 (refresh 100 demo_decoded demo_aircraft) = (Some (0, 0, 0), 100, 5, 5)"
    and o2: "old_result 115 (refresh 115 demo_decoded demo_aircraft) = (Some (0, 0, 0), 100, 5, 20)"
    by (simp_all add: old_result_def refresh_def demo_externals_def demo_tracker_def idle_tracker_def demo_group_def
          demo_decoded_def demo_aircraft_def)
  have f1: "find_altitude (FTOM demo_externals) 100 (refresh 100 demo_decoded demo_aircraft)
              = (Some 9144, Some (762 / 10), 3)"
    and f2: "find_altitude (FTOM demo_externals) 115 (refresh 115 demo_decoded demo_aircraft)
              = (Some 9144, Some (762 / 10), 3)"
    by (simp_all add: find_altitude_def refresh_def demo_externals_def demo_tracker_def idle_tracker_def demo_group_def
          demo_decoded_def demo_aircraft_def)
  have tm: "?tm = build_timestamp_map (user demo_externals) (blacklist demo_tracker)
                    (group_copies demo_group) []"
    by (simp add: demo_externals_def demo_tracker_def idle_tracker_def demo_group_def
          demo_decoded_def demo_aircraft_def)
  have q: "\<not> length ?tm < 3" by simp
  from resolve_ratelimit [OF h1 h2 h3 h4 o1 f1 tm q]
  have A: "resolve demo_externals 100 demo_tracker demo_group =
     (demo_tracker\<lparr>pending := (pending demo_tracker)(''m'' := None),
        aircraft := (aircraft demo_tracker)(7 \<mapsto> refresh 100 demo_decoded demo_aircraft),
        calls := [Decode ''m'']\<rparr>, None)"
    by (simp add: demo_externals_def demo_tracker_def idle_tracker_def demo_group_def
          demo_decoded_def demo_aircraft_def)
  from resolve_ratelimit [OF h1 h2 h3 h4 o2 f2 tm q]
  have B: "take (length (calls demo_tracker) + 2)
       (calls (fst (resolve demo_externals 115 demo_tracker demo_group))) =
     [Decode ''m'', Normalize ?tm]"
    by (simp add: demo_externals_def demo_tracker_def idle_tracker_def demo_group_def
          demo_decoded_def demo_aircraft_def)
  have r1: "pending recent_tracker (group_message demo_group) = Some demo_group"
    and r4: "aircraft recent_tracker (dec_address demo_decoded)
               = Some (demo_aircraft\<lparr>ac_last_result_distinct := 3\<rparr>)"
    by (simp_all add: recent_tracker_def demo_externals_def demo_tracker_def idle_tracker_def demo_group_def
          demo_decoded_def demo_aircraft_def)
  have o3: "old_result 96 (refresh 96 demo_decoded (demo_aircraft\<lparr>ac_last_result_distinct := 3\<rparr>))
              = (Some (0, 0, 0), 100, 3, 1)"
    by (simp add: old_result_def refresh_def demo_externals_def demo_tracker_def idle_tracker_def demo_group_def
          demo_decoded_def demo_aircraft_def)
  have f3: "find_altitude (FTOM demo_externals) 96
              (refresh 96 demo_decoded (demo_aircraft\<lparr>ac_last_result_distinct := 3\<rparr>))
              = (Some 9144, Some (762 / 10), 3)"
    by (simp add: find_altitude_def refresh_def demo_externals_def demo_tracker_def idle_tracker_def demo_group_def
          demo_decoded_def demo_aircraft_def)
  have tm3: "?tm = build_timestamp_map (user demo_externals) (blacklist recent_tracker)
                    (group_copies demo_group) []"
    by (simp add: recent_tracker_def demo_externals_def demo_tracker_def idle_tracker_def demo_group_def
          demo_decoded_def demo_aircraft_def)
  from resolve_ratelimit [OF r1 h2 h3 r4 o3 f3 tm3 q]
  have C: "take (length (calls recent_tracker) + 2)
       (calls (fst (resolve demo_externals 96 recent_tracker demo_group))) =
     [Decode ''m'', Normalize ?tm]"
    by (simp add: recent_tracker_def demo_externals_def demo_tracker_def idle_tracker_def demo_group_def
          demo_decoded_def demo_aircraft_def)
  have D: "length (outputs (fst (resolve demo_externals 115 demo_tracker demo_group))) = 1"
    by (simp add: demo_run)
  from A B C D show ?thesis by simp
qed

text \<open>
  Claim C5, as stated, fails. With the altitude seen 20 s ago the error is 1650 ft,
  502.92 m at 0.3048 m per foot: not under 1000 ft (304.8 m), and yet the quorum is 3.
  The same holds when \<open>FTOM\<close> is 0.3038.
\<close>

theorem find_altitude_feet_counterexample:
  "find_altitude (3048 / 10000) 20 aloft = (Some 9144, Some (50292 / 100), 3) \<and>
   \<not> (250 + 70 * (20 - ac_last_altitude_time aloft) < 1000) \<and>
   \<not> (50292 / 100 < 1000 * (3048 / 10000 :: real)) \<and>
   find_altitude (3038 / 10000) 20 aloft = (Some 9114, Some (50127 / 100), 3) \<and>
   \<not> (50127 / 100 < 1000 * (3038 / 10000 :: real))"
  by (simp add: find_altitude_def aloft_def demo_aircraft_def)

text \<open>
  Claim C5, amended. Without an altitude the quorum is 4 and neither an altitude nor
  an altitude error is passed on. With an altitude the error is
  \<open>(250 + 70 * seconds) * FTOM\<close>, and the quorum is 3 exactly when this converted error
  is under 1000 of the position's length units, and 4 otherwise. These are the values
  \<open>_resolve\<close> uses: after the decoder it calls the normalizer only on a map of at least
  that many receivers, and the solver only with that altitude and altitude error.
\<close>

theorem find_altitude_quorum:
  "(ac_altitude ac = None \<longrightarrow> find_altitude ftom now ac = (None, None, 4)) \<and>
   (\<forall>a. ac_altitude ac = Some a \<longrightarrow>
      find_altitude ftom now ac =
        (Some (real_of_int a * ftom),
         Some ((250 + 70 * (now - ac_last_altitude_time ac)) * ftom),
         if (250 + 70 * (now - ac_last_altitude_time ac)) * ftom < 1000 then 3 else 4)) \<and>
   (pending s (group_message grp) = Some g0 \<and> \<not> length (group_copies grp) < 3 \<and>
    message_decode E (group_message grp) = Inr dec \<and>
    aircraft s (dec_address dec) = Some ac0 \<and>
    find_altitude (FTOM E) now (refresh now dec ac0) = (alt, err, min_receivers) \<longrightarrow>
      (\<exists>ext. calls (fst (resolve E now s grp)) = calls s @ Decode (group_message grp) # ext \<and>
         (\<forall>c \<in> set ext.
            case c of
              Decode m \<Rightarrow> False
            | Normalize tm \<Rightarrow> min_receivers \<le> length tm
            | Solve cl a e p \<Rightarrow> a = alt \<and> e = err)))"
proof -
  have A: "ac_altitude ac = None \<longrightarrow> find_altitude ftom now ac = (None, None, 4)"
    by (simp add: find_altitude_def)
  have B: "\<forall>a. ac_altitude ac = Some a \<longrightarrow>
      find_altitude ftom now ac =
        (Some (real_of_int a * ftom),
         Some ((250 + 70 * (now - ac_last_altitude_time ac)) * ftom),
         if (250 + 70 * (now - ac_last_altitude_time ac)) * ftom < 1000 then 3 else 4)"
    by (simp add: find_altitude_def Let_def mult.commute)
  have C: "\<exists>ext. calls (fst (resolve E now s grp)) = calls s @ Decode (group_message grp) # ext \<and>
         (\<forall>c \<in> set ext.
            case c of
              Decode m \<Rightarrow> False
            | Normalize tm \<Rightarrow> min_receivers \<le> length tm
            | Solve cl a e p \<Rightarrow> a = alt \<and> e = err)"
    if h: "pending s (group_message grp) = Some g0" "\<not> length (group_copies grp) < 3"
      "message_decode E (group_message grp) = Inr dec" "aircraft s (dec_address dec) = Some ac0"
      and fa: "find_altitude (FTOM E) now (refresh now dec ac0) = (alt, err, min_receivers)"
    using resolve_aircraft_calls [OF fa, of
        "s\<lparr>pending := (pending s)(group_message grp := None),
           calls := calls s @ [Decode (group_message grp)]\<rparr>" grp]
      resolve_known [OF h, of now]
    by simp
  from A B C show ?thesis by blast
qed

theorem find_altitude_quorum_witness:
  "find_altitude (3048 / 10000) 20 demo_aircraft = (None, None, 4) \<and>
   find_altitude (3048 / 10000) 20 aloft = (Some 9144, Some (50292 / 100), 3) \<and>
   find_altitude (3048 / 10000) 60 aloft = (Some 9144, Some (135636 / 100), 4) \<and>
   (\<exists>ext. calls (fst (resolve demo_externals 115 demo_tracker demo_group))
            = calls demo_tracker @ Decode ''m'' # ext \<and>
      (\<forall>c \<in> set ext.
         case c of
           Decode m \<Rightarrow> False
         | Normalize tm \<Rightarrow> 3 \<le> length tm
         | Solve cl a e p \<Rightarrow> a = Some 9144 \<and> e = Some (762 / 10)))"
proof -
  have h1: "pending demo_tracker (group_message demo_group) = Some demo_group"
    and h2: "\<not> length (group_copies demo_group) < 3"
    and h3: "message_decode demo_externals (group_message demo_group) = Inr demo_decoded"
    and h4: "aircraft demo_tracker (dec_address demo_decoded) = Some demo_aircraft"
    by (simp_all add: demo_externals_def demo_tracker_def idle_tracker_def demo_group_def
          demo_decoded_def demo_aircraft_def)
  have fa: "find_altitude (FTOM demo_externals) 115 (refresh 115 demo_decoded demo_aircraft)
              = (Some 9144, Some (762 / 10), 3)"
    by (simp add: find_altitude_def refresh_def demo_externals_def demo_decoded_def
          demo_aircraft_def)
  have m: "group_message demo_group = ''m''" by (simp add: demo_group_def)
  from find_altitude_quorum [where s = demo_tracker and grp = demo_group and E = demo_externals
      and now = 115 and dec = demo_decoded and ac0 = demo_aircraft and ?g0.0 = demo_group
      and alt = "Some 9144" and err = "Some (762 / 10)" and min_receivers = 3]
    h1 h2 h3 h4 fa m
  have D: "\<exists>ext. calls (fst (resolve demo_externals 115 demo_tracker demo_group))
            = calls demo_tracker @ Decode ''m'' # ext \<and>
      (\<forall>c \<in> set ext.
         case c of
           Decode m \<Rightarrow> False
         | Normalize tm \<Rightarrow> 3 \<le> length tm
         | Solve cl a e p \<Rightarrow> a = Some 9144 \<and> e = Some (762 / 10))"
    by simp
  have ABC: "find_altitude (3048 / 10000) 20 demo_aircraft = (None, None, 4) \<and>
   find_altitude (3048 / 10000) 20 aloft = (Some 9144, Some (50292 / 100), 3) \<and>
   find_altitude (3048 / 10000) 60 aloft = (Some 9144, Some (135636 / 100), 4)"
    using find_altitude_quorum [where ac = demo_aircraft and ftom = "3048 / 10000" and now = 20]
      find_altitude_quorum [where ac = aloft and ftom = "3048 / 10000" and now = 20]
      find_altitude_quorum [where ac = aloft and ftom = "3048 / 10000" and now = 60]
    by (simp add: demo_aircraft_def aloft_def)
  from ABC D show ?thesis by blast
qed

text \<open>
  Claim C6. Without an accepted result, or with one that is more than 120 s old, the
  old result is the sentinel: no position, variance 1e9, distinct count 0, elapsed
  120. Otherwise it is the stored position, variance and distinct count with the time
  elapsed since the result was accepted. This is the prior \<open>_resolve\<close> works with for an
  aircraft it finds: the rate limit takes its elapsed time and distinct count, and the
  loop over the clusters takes all four values.
\<close>

theorem resolve_prior:
  "(ac_last_result_position ac = None \<or> now - ac_last_result_time ac > 120
      \<longrightarrow> old_result now ac = (None, 1000000000, 0, 120)) \<and>
   (ac_last_result_position ac \<noteq> None \<and> now - ac_last_result_time ac \<le> 120
      \<longrightarrow> old_result now ac =
            (ac_last_result_position ac, ac_last_result_var ac, ac_last_result_distinct ac,
             now - ac_last_result_time ac)) \<and>
   (pending s (group_message grp) = Some g0 \<and> \<not> length (group_copies grp) < 3 \<and>
    message_decode E (group_message grp) = Inr dec \<and>
    aircraft s (dec_address dec) = Some ac0 \<and>
    find_altitude (FTOM E) now (refresh now dec ac0) = (alt, err, min_receivers) \<and>
    tm = build_timestamp_map (user E) (blacklist s) (group_copies grp) [] \<longrightarrow>
      resolve E now s grp =
        (case (if ac_last_result_position ac0 = None \<or> now - ac_last_result_time ac0 > 120
               then (None, 1000000000, 0, 120)
               else (ac_last_result_position ac0, ac_last_result_var ac0,
                     ac_last_result_distinct ac0, now - ac_last_result_time ac0)) of
           (lrp, lrv, lrd, elapsed) \<Rightarrow>
             (let s1 = s\<lparr>pending := (pending s)(group_message grp := None),
                          aircraft := (aircraft s)(dec_address dec \<mapsto> refresh now dec ac0),
                          calls := calls s @ [Decode (group_message grp)]\<rparr>;
                  s2 = s1\<lparr>calls := calls s @ [Decode (group_message grp), Normalize tm]\<rparr>
              in if length tm < min_receivers \<or> (elapsed < 15 \<and> length tm < lrd)
                      \<or> (elapsed < 2 \<and> length tm = lrd)
                 then (s1, None)
                 else (case collect_clusters (distance E) (Cair E) min_receivers
                             (clocknorm_normalize E tm) [] of
                         Inl e \<Rightarrow> (s2, Some e)
                       | Inr clusters \<Rightarrow>
                           if clusters = [] then (s2, None)
                           else (case select E elapsed lrp lrv lrd alt err
                                        (sorted_stack clusters) (calls s2) of
                                   (made, Inl e) \<Rightarrow> (s2\<lparr>calls := made\<rparr>, Some e)
                                 | (made, Inr None) \<Rightarrow> (s2\<lparr>calls := made\<rparr>, None)
                                 | (made, Inr (Some result)) \<Rightarrow>
                                     commit E now (s2\<lparr>calls := made\<rparr>) grp dec
                                       (refresh now dec ac0) alt err result)))))"
proof -
  have A: "ac_last_result_position ac = None \<or> now - ac_last_result_time ac > 120
      \<longrightarrow> old_result now ac = (None, 1000000000, 0, 120)"
    by (auto simp: old_result_def)
  have B: "ac_last_result_position ac \<noteq> None \<and> now - ac_last_result_time ac \<le> 120
      \<longrightarrow> old_result now ac =
            (ac_last_result_position ac, ac_last_result_var ac, ac_last_result_distinct ac,
             now - ac_last_result_time ac)"
    by (auto simp: old_result_def)
  have C: "resolve E now s grp =
        (case (if ac_last_result_position ac0 = None \<or> now - ac_last_result_time ac0 > 120
               then (None, 1000000000, 0, 120)
               else (ac_last_result_position ac0, ac_last_result_var ac0,
                     ac_last_result_distinct ac0, now - ac_last_result_time ac0)) of
           (lrp, lrv, lrd, elapsed) \<Rightarrow>
             (let s1 = s\<lparr>pending := (pending s)(group_message grp := None),
                          aircraft := (aircraft s)(dec_address dec \<mapsto> refresh now dec ac0),
                          calls := calls s @ [Decode (group_message grp)]\<rparr>;
                  s2 = s1\<lparr>calls := calls s @ [Decode (group_message grp), Normalize tm]\<rparr>
              in if length tm < min_receivers \<or> (elapsed < 15 \<and> length tm < lrd)
                      \<or> (elapsed < 2 \<and> length tm = lrd)
                 then (s1, None)
                 else (case collect_clusters (distance E) (Cair E) min_receivers
                             (clocknorm_normalize E tm) [] of
                         Inl e \<Rightarrow> (s2, Some e)
                       | Inr clusters \<Rightarrow>
                           if clusters = [] then (s2, None)
                           else (case select E elapsed lrp lrv lrd alt err
                                        (sorted_stack clusters) (calls s2) of
                                   (made, Inl e) \<Rightarrow> (s2\<lparr>calls := made\<rparr>, Some e)
                                 | (made, Inr None) \<Rightarrow> (s2\<lparr>calls := made\<rparr>, None)
                                 | (made, Inr (Some result)) \<Rightarrow>
                                     commit E now (s2\<lparr>calls := made\<rparr>) grp dec
                                       (refresh now dec ac0) alt err result))))"
    if h: "pending s (group_message grp) = Some g0" "\<not> length (group_copies grp) < 3"
      "message_decode E (group_message grp) = Inr dec" "aircraft s (dec_address dec) = Some ac0"
      and fa: "find_altitude (FTOM E) now (refresh now dec ac0) = (alt, err, min_receivers)"
      and tm: "tm = build_timestamp_map (user E) (blacklist s) (group_copies grp) []"
  proof (cases "ac_last_result_position ac0 = None \<or> now - ac_last_result_time ac0 > 120")
    case True
    then have old: "old_result now ac0 = (None, 1000000000, 0, 120)"
      by (auto simp: old_result_def)
    from True show ?thesis
      by (simp only: resolve_loop [OF h old fa tm refl refl] if_True prod.case Let_def)
  next
    case False
    then have old: "old_result now ac0 =
        (ac_last_result_position ac0, ac_last_result_var ac0,
         ac_last_result_distinct ac0, now - ac_last_result_time ac0)"
      by (auto simp: old_result_def)
    from False show ?thesis
      by (simp only: resolve_loop [OF h old fa tm refl refl] if_False prod.case Let_def)
  qed
  from A B C show ?thesis by blast
qed

theorem resolve_prior_witness:
  "calls (fst (resolve survey_externals 100 fresh_tracker demo_group)) =
     [Decode ''m'',
      Normalize [(1, [1 / 10000]), (2, [1 / 20000]), (3, [0]), (4, [1 / 50000])],
      Solve [(3, 0, 0), (4, 1 / 50000, 0), (2, 1 / 20000, 0), (1, 1 / 10000, 0)]
        (Some 9144) (Some (762 / 10)) (3, 0, 0)] \<and>
   calls (fst (resolve survey_externals 216 demo_tracker demo_group)) =
     [Decode ''m'',
      Normalize [(1, [1 / 10000]), (2, [1 / 20000]), (3, [0]), (4, [1 / 50000])],
      Solve [(3, 0, 0), (4, 1 / 50000, 0), (2, 1 / 20000, 0), (1, 1 / 10000, 0)]
        (Some 9144) (Some (762 / 10)) (3, 0, 0)] \<and>
   calls (fst (resolve survey_externals 215 demo_tracker demo_group)) =
     [Decode ''m'',
      Normalize [(1, [1 / 10000]), (2, [1 / 20000]), (3, [0]), (4, [1 / 50000])],
      Solve [(3, 0, 0), (4, 1 / 50000, 0), (2, 1 / 20000, 0), (1, 1 / 10000, 0)]
        (Some 9144) (Some (762 / 10)) (0, 0, 0)] \<and>
   calls (fst (resolve survey_externals 100 demo_tracker demo_group)) = [Decode ''m'']"
proof -
  note defs = resolve_def resolve_aircraft_def Let_def old_result_def find_altitude_def
        refresh_def survey_externals_def demo_externals_def demo_tracker_def fresh_tracker_def
        idle_tracker_def demo_group_def
        demo_decoded_def demo_aircraft_def cluster_timestamps_def flatten_def
        cluster_group.simps form_cluster_def spread_def sorted_stack_def seed_position_def
        var_estimate_def commit_def eval_nat_numeral
  have A: "calls (fst (resolve survey_externals 100 fresh_tracker demo_group)) =
     [Decode ''m'',
      Normalize [(1, [1 / 10000]), (2, [1 / 20000]), (3, [0]), (4, [1 / 50000])],
      Solve [(3, 0, 0), (4, 1 / 50000, 0), (2, 1 / 20000, 0), (1, 1 / 10000, 0)]
        (Some 9144) (Some (762 / 10)) (3, 0, 0)]"
    using resolve_prior [where s = fresh_tracker and grp = demo_group and E = survey_externals
        and now = 100 and dec = demo_decoded
        and ac0 = "demo_aircraft\<lparr>ac_last_result_position := None\<rparr>" and ?g0.0 = demo_group
        and alt = "Some 9144" and err = "Some (762 / 10)" and min_receivers = 3
        and tm = "[(1, [1 / 10000]), (2, [1 / 20000]), (3, [0]), (4, [1 / 50000])]"]
    by (simp add: defs)
  have B: "calls (fst (resolve survey_externals 216 demo_tracker demo_group)) =
     [Decode ''m'',
      Normalize [(1, [1 / 10000]), (2, [1 / 20000]), (3, [0]), (4, [1 / 50000])],
      Solve [(3, 0, 0), (4, 1 / 50000, 0), (2, 1 / 20000, 0), (1, 1 / 10000, 0)]
        (Some 9144) (Some (762 / 10)) (3, 0, 0)]"
    using resolve_prior [where s = demo_tracker and grp = demo_group and E = survey_externals
        and now = 216 and dec = demo_decoded
        and ac0 = demo_aircraft and ?g0.0 = demo_group
        and alt = "Some 9144" and err = "Some (762 / 10)" and min_receivers = 3
        and tm = "[(1, [1 / 10000]), (2, [1 / 20000]), (3, [0]), (4, [1 / 50000])]"]
    by (simp add: defs)
  have C: "calls (fst (resolve survey_externals 215 demo_tracker demo_group)) =
     [Decode ''m'',
      Normalize [(1, [1 / 10000]), (2, [1 / 20000]), (3, [0]), (4, [1 / 50000])],
      Solve [(3, 0, 0), (4, 1 / 50000, 0), (2, 1 / 20000, 0), (1, 1 / 10000, 0)]
        (Some 9144) (Some (762 / 10)) (0, 0, 0)]"
    using resolve_prior [where s = demo_tracker and grp = demo_group and E = survey_externals
        and now = 215 and dec = demo_decoded
        and ac0 = demo_aircraft and ?g0.0 = demo_group
        and alt = "Some 9144" and err = "Some (762 / 10)" and min_receivers = 3
        and tm = "[(1, [1 / 10000]), (2, [1 / 20000]), (3, [0]), (4, [1 / 50000])]"]
    by (simp add: defs)
  have D: "calls (fst (resolve survey_externals 100 demo_tracker demo_group)) = [Decode ''m'']"
    using resolve_prior [where s = demo_tracker and grp = demo_group and E = survey_externals
        and now = 100 and dec = demo_decoded
        and ac0 = demo_aircraft and ?g0.0 = demo_group
        and alt = "Some 9144" and err = "Some (762 / 10)" and min_receivers = 3
        and tm = "[(1, [1 / 10000]), (2, [1 / 20000]), (3, [0]), (4, [1 / 50000])]"]
    by (simp add: defs)
  from A B C D show ?thesis by blast
qed

text \<open>
  Claim C7. For a group with fewer than 3 copies \<open>_resolve\<close> only removes the group
  from \<open>pending\<close>: no output, no call to the decoder, no other change of the state.
\<close>

theorem resolve_too_few_copies:
  assumes "length (group_copies grp) < 3"
  shows "fst (resolve E now s grp) = s\<lparr>pending := (pending s)(group_message grp := None)\<rparr> \<and>
         (pending s (group_message grp) \<noteq> None \<longrightarrow> snd (resolve E now s grp) = None)"
proof (cases "pending s (group_message grp)")
  case None
  then have "(pending s)(group_message grp := None) = pending s" by auto
  with None show ?thesis by (simp add: resolve_def)
next
  case (Some g)
  with assms show ?thesis by (simp add: resolve_def Let_def)
qed

theorem resolve_too_few_copies_witness:
  "pending (receiver_mlat (receiver_mlat idle_tracker 0 1 (1 / 10) ''m'') 0 2 (2 / 10) ''m'') ''m''
     = Some two_copies \<and>
   length (group_copies two_copies) < 3 \<and>
   fst (resolve demo_externals 100
          (receiver_mlat (receiver_mlat idle_tracker 0 1 (1 / 10) ''m'') 0 2 (2 / 10) ''m'')
          two_copies) = idle_tracker \<and>
   snd (resolve demo_externals 100
          (receiver_mlat (receiver_mlat idle_tracker 0 1 (1 / 10) ''m'') 0 2 (2 / 10) ''m'')
          two_copies) = None"
proof -
  let ?s = "receiver_mlat (receiver_mlat idle_tracker 0 1 (1 / 10) ''m'') 0 2 (2 / 10) ''m''"
  have p: "pending ?s ''m'' = Some two_copies"
    by (simp add: receiver_mlat_def idle_tracker_def two_copies_def Let_def)
  have l: "length (group_copies two_copies) < 3" by (simp add: two_copies_def)
  have m: "group_message two_copies = ''m''" by (simp add: two_copies_def)
  have restored: "?s\<lparr>pending := (pending ?s)(''m'' := None)\<rparr> = idle_tracker"
    by (simp add: receiver_mlat_def idle_tracker_def Let_def fun_eq_iff)
  from resolve_too_few_copies [OF l, of demo_externals 100 ?s] p l m restored
  show ?thesis by simp
qed

text \<open>
  Claim C9. Once the message is decoded and its aircraft is found, the aircraft has the
  altitude (with its time), squawk and callsign of the message wherever the message
  carries them, however \<open>_resolve\<close> ends; when no position is put out, nothing else of
  the aircraft has changed; and no other aircraft is touched.
\<close>

theorem resolve_refresh_persists:
  assumes "pending s (group_message grp) = Some g0"
    and "\<not> length (group_copies grp) < 3"
    and "message_decode E (group_message grp) = Inr dec"
    and "aircraft s (dec_address dec) = Some ac0"
    and "resolve E now s grp = (s', e)"
  shows "\<exists>ac'. aircraft s' (dec_address dec) = Some ac' \<and>
           ac_altitude ac' = (case dec_altitude dec of Some a \<Rightarrow> Some a | None \<Rightarrow> ac_altitude ac0) \<and>
           ac_last_altitude_time ac' =
             (case dec_altitude dec of Some a \<Rightarrow> now | None \<Rightarrow> ac_last_altitude_time ac0) \<and>
           ac_squawk ac' = (case dec_squawk dec of Some q \<Rightarrow> Some q | None \<Rightarrow> ac_squawk ac0) \<and>
           ac_callsign ac' = (case dec_callsign dec of Some c \<Rightarrow> Some c | None \<Rightarrow> ac_callsign ac0) \<and>
           (outputs s' = outputs s \<longrightarrow>
              ac' = ac0\<lparr>ac_altitude := ac_altitude ac', ac_last_altitude_time := ac_last_altitude_time ac',
                       ac_squawk := ac_squawk ac', ac_callsign := ac_callsign ac'\<rparr>) \<and>
           (\<forall>a. a \<noteq> dec_address dec \<longrightarrow> aircraft s' a = aircraft s a)"
proof -
  let ?s0 = "s\<lparr>pending := (pending s)(group_message grp := None),
               calls := calls s @ [Decode (group_message grp)]\<rparr>"
  from resolve_known [OF assms(1-4), of now] assms(5)
  have run: "resolve_aircraft E now ?s0 grp dec ac0 = (s', e)" by simp
  from resolve_aircraft_props(2) [OF run] obtain ac' where
    ac: "aircraft s' = (aircraft s)(dec_address dec \<mapsto> ac')"
      "ac_altitude ac' = ac_altitude (refresh now dec ac0)"
      "ac_last_altitude_time ac' = ac_last_altitude_time (refresh now dec ac0)"
      "ac_squawk ac' = ac_squawk (refresh now dec ac0)"
      "ac_callsign ac' = ac_callsign (refresh now dec ac0)"
      "outputs s' = outputs s \<longrightarrow> ac' = refresh now dec ac0"
    by auto
  have r: "refresh now dec ac0 =
      ac0\<lparr>ac_altitude := ac_altitude (refresh now dec ac0),
          ac_last_altitude_time := ac_last_altitude_time (refresh now dec ac0),
          ac_squawk := ac_squawk (refresh now dec ac0),
          ac_callsign := ac_callsign (refresh now dec ac0)\<rparr>"
    by (simp add: refresh_def Let_def split: option.splits)
  have f: "ac_altitude (refresh now dec ac0) = (case dec_altitude dec of Some a \<Rightarrow> Some a | None \<Rightarrow> ac_altitude ac0)"
    "ac_last_altitude_time (refresh now dec ac0) =
             (case dec_altitude dec of Some a \<Rightarrow> now | None \<Rightarrow> ac_last_altitude_time ac0)"
    "ac_squawk (refresh now dec ac0) = (case dec_squawk dec of Some q \<Rightarrow> Some q | None \<Rightarrow> ac_squawk ac0)"
    "ac_callsign (refresh now dec ac0) = (case dec_callsign dec of Some c \<Rightarrow> Some c | None \<Rightarrow> ac_callsign ac0)"
    by (simp_all add: refresh_def Let_def split: option.splits)
  show ?thesis
  proof (intro exI [of _ ac'] conjI)
    show "outputs s' = outputs s \<longrightarrow>
              ac' = ac0\<lparr>ac_altitude := ac_altitude ac', ac_last_altitude_time := ac_last_altitude_time ac',
                       ac_squawk := ac_squawk ac', ac_callsign := ac_callsign ac'\<rparr>"
      using ac r by auto
  qed (use ac f in auto)
qed

theorem resolve_refresh_persists_witness:
  "resolve demo_externals 100 demo_tracker demo_group =
     (demo_tracker\<lparr>pending := (pending demo_tracker)(''m'' := None),
        aircraft := (aircraft demo_tracker)(7 \<mapsto> refresh 100 demo_decoded demo_aircraft),
        calls := [Decode ''m'']\<rparr>, None) \<and>
   (\<exists>ac'. ((aircraft demo_tracker)(7 \<mapsto> refresh 100 demo_decoded demo_aircraft)) 7 = Some ac' \<and>
      ac_altitude ac' = Some 30000 \<and> ac_last_altitude_time ac' = 100 \<and>
      ac_squawk ac' = Some ''7000'' \<and> ac_callsign ac' = Some ''TEST'' \<and>
      ac' = demo_aircraft\<lparr>ac_altitude := Some 30000, ac_last_altitude_time := 100,
                            ac_squawk := Some ''7000'', ac_callsign := Some ''TEST''\<rparr>)"
proof -
  let ?s' = "demo_tracker\<lparr>pending := (pending demo_tracker)(''m'' := None),
        aircraft := (aircraft demo_tracker)(7 \<mapsto> refresh 100 demo_decoded demo_aircraft),
        calls := [Decode ''m'']\<rparr>"
  have h1: "pending demo_tracker (group_message demo_group) = Some demo_group"
    and h2: "\<not> length (group_copies demo_group) < 3"
    and h3: "message_decode demo_externals (group_message demo_group) = Inr demo_decoded"
    and h4: "aircraft demo_tracker (dec_address demo_decoded) = Some demo_aircraft"
    by (simp_all add: demo_externals_def demo_tracker_def idle_tracker_def demo_group_def
          demo_decoded_def demo_aircraft_def)
  have run: "resolve demo_externals 100 demo_tracker demo_group = (?s', None)"
    by (simp add: resolve_def resolve_aircraft_def Let_def old_result_def find_altitude_def
          refresh_def demo_externals_def demo_tracker_def idle_tracker_def demo_group_def
          demo_decoded_def demo_aircraft_def)
  from resolve_refresh_persists [OF h1 h2 h3 h4 run]
  obtain ac' where
    "aircraft ?s' (dec_address demo_decoded) = Some ac'"
    "ac_altitude ac' = (case dec_altitude demo_decoded of Some a \<Rightarrow> Some a
                        | None \<Rightarrow> ac_altitude demo_aircraft)"
    "ac_last_altitude_time ac' = (case dec_altitude demo_decoded of Some a \<Rightarrow> 100
                        | None \<Rightarrow> ac_last_altitude_time demo_aircraft)"
    "ac_squawk ac' = (case dec_squawk demo_decoded of Some q \<Rightarrow> Some q
                        | None \<Rightarrow> ac_squawk demo_aircraft)"
    "ac_callsign ac' = (case dec_callsign demo_decoded of Some c \<Rightarrow> Some c
                        | None \<Rightarrow> ac_callsign demo_aircraft)"
    "outputs ?s' = outputs demo_tracker \<longrightarrow>
       ac' = demo_aircraft\<lparr>ac_altitude := ac_altitude ac',
               ac_last_altitude_time := ac_last_altitude_time ac',
               ac_squawk := ac_squawk ac', ac_callsign := ac_callsign ac'\<rparr>"
    by blast
  then have "((aircraft demo_tracker)(7 \<mapsto> refresh 100 demo_decoded demo_aircraft)) 7 = Some ac' \<and>
      ac_altitude ac' = Some 30000 \<and> ac_last_altitude_time ac' = 100 \<and>
      ac_squawk ac' = Some ''7000'' \<and> ac_callsign ac' = Some ''TEST'' \<and>
      ac' = demo_aircraft\<lparr>ac_altitude := Some 30000, ac_last_altitude_time := 100,
                            ac_squawk := Some ''7000'', ac_callsign := Some ''TEST''\<rparr>"
    by (simp add: demo_decoded_def demo_aircraft_def)
  with run show ?thesis by blast
qed

text \<open>
  Claim C10. A solver result without a covariance has the variance estimate 100e6. It
  passes the test \<open>var_est > 100e6\<close>, so it is accepted unless less than 2 s have elapsed
  and 100e6 exceeds 1.1 times the old variance, and it is committed: the aircraft takes
  the variance 100e6 and the handlers are called.
\<close>

theorem no_covariance_accepted:
  "var_estimate None = 100000000 \<and>
   (\<not> (elapsed < 10 \<and> n < lrd) \<and> \<not> (elapsed < MLAT_DELAY E - 1 / 2 \<and> n = lrd) \<and>
    seed_position E lrp (sort_key (\<lambda>t. fst (snd t)) c) = Inr seed \<and>
    solver_solve E (sort_key (\<lambda>t. fst (snd t)) c) alt err seed = Some (ecef, None) \<longrightarrow>
      select E elapsed lrp lrv lrd alt err ((n, c) # rest) made =
        (if elapsed < 2 \<and> 100000000 > lrv * (11 / 10)
         then select E elapsed lrp lrv lrd alt err rest
                (made @ [Solve (sort_key (\<lambda>t. fst (snd t)) c) alt err seed])
         else (made @ [Solve (sort_key (\<lambda>t. fst (snd t)) c) alt err seed],
               Inr (Some (ecef, None, 100000000, n, sort_key (\<lambda>t. fst (snd t)) c))))) \<and>
   aircraft (fst (commit E now s grp dec ac alt err (ecef, None, 100000000, n, cl)))
       (dec_address dec) =
     Some (ac\<lparr>ac_last_result_position := Some ecef, ac_last_result_var := 100000000,
              ac_last_result_distinct := n, ac_last_result_time := now,
              ac_kalman := ac_kalman ac @
                [(group_first_seen grp, cl, alt, err, ecef, None, n)]\<rparr>) \<and>
   outputs (fst (commit E now s grp dec ac alt err (ecef, None, 100000000, n, cl))) =
     outputs s @ [(group_first_seen grp, dec_address dec, ecef, None, map fst cl, n,
                   ac_kalman ac @ [(group_first_seen grp, cl, alt, err, ecef, None, n)])] \<and>
   (pseudorange_file s = None \<longrightarrow>
      snd (commit E now s grp dec ac alt err (ecef, None, 100000000, n, cl)) = None)"
proof -
  have A: "var_estimate None = 100000000" by (simp add: var_estimate_def)
  have B: "select E elapsed lrp lrv lrd alt err ((n, c) # rest) made =
        (if elapsed < 2 \<and> 100000000 > lrv * (11 / 10)
         then select E elapsed lrp lrv lrd alt err rest
                (made @ [Solve (sort_key (\<lambda>t. fst (snd t)) c) alt err seed])
         else (made @ [Solve (sort_key (\<lambda>t. fst (snd t)) c) alt err seed],
               Inr (Some (ecef, None, 100000000, n, sort_key (\<lambda>t. fst (snd t)) c))))"
    if "\<not> (elapsed < 10 \<and> n < lrd)" "\<not> (elapsed < MLAT_DELAY E - 1 / 2 \<and> n = lrd)"
      "seed_position E lrp (sort_key (\<lambda>t. fst (snd t)) c) = Inr seed"
      "solver_solve E (sort_key (\<lambda>t. fst (snd t)) c) alt err seed = Some (ecef, None)"
    using select_solve [OF that(1-3)] that(4) A by simp
  have C: "aircraft (fst (commit E now s grp dec ac alt err (ecef, None, 100000000, n, cl)))
       (dec_address dec) =
     Some (ac\<lparr>ac_last_result_position := Some ecef, ac_last_result_var := 100000000,
              ac_last_result_distinct := n, ac_last_result_time := now,
              ac_kalman := ac_kalman ac @
                [(group_first_seen grp, cl, alt, err, ecef, None, n)]\<rparr>)"
    by (simp add: commit_def Let_def split: option.splits list.splits)
  have D: "outputs (fst (commit E now s grp dec ac alt err (ecef, None, 100000000, n, cl))) =
     outputs s @ [(group_first_seen grp, dec_address dec, ecef, None, map fst cl, n,
                   ac_kalman ac @ [(group_first_seen grp, cl, alt, err, ecef, None, n)])]"
    by (simp add: commit_def Let_def split: option.splits list.splits)
  have F: "snd (commit E now s grp dec ac alt err (ecef, None, 100000000, n, cl)) = None"
    if "pseudorange_file s = None"
    using that by (simp add: commit_def Let_def)
  from A B C D F show ?thesis by blast
qed

theorem no_covariance_accepted_witness:
  "select demo_externals 120 None 1000000000 0 None None [(4, large_cluster)] [] =
     ([Solve large_cluster None None (0, 0, 0)],
      Inr (Some ((1, 2, 3), None, 100000000, 4, large_cluster))) \<and>
   select demo_externals 1 (Some (0, 0, 0)) 100 3 None None [(4, large_cluster)] [] =
     ([Solve large_cluster None None (0, 0, 0)], Inr None) \<and>
   snd (commit demo_externals 115 demo_tracker demo_group demo_decoded demo_aircraft None None
          ((1, 2, 3), None, 100000000, 4, large_cluster)) = None \<and>
   outputs (fst (commit demo_externals 115 demo_tracker demo_group demo_decoded demo_aircraft
                   None None ((1, 2, 3), None, 100000000, 4, large_cluster))) =
     [(0, 7, (1, 2, 3), None, [4, 3, 2, 1], 4,
       [(0, large_cluster, None, None, (1, 2, 3), None, 4)])] \<and>
   map_option ac_last_result_var
     (aircraft (fst (resolve demo_externals 115 demo_tracker demo_group)) 7) = Some 100000000"
proof -
  have srt: "sort_key (\<lambda>t. fst (snd t)) large_cluster = large_cluster"
    by (simp add: large_cluster_def)
  have sp: "seed_position demo_externals None large_cluster = Inr (0, 0, 0)"
    "seed_position demo_externals (Some (0, 0, 0)) large_cluster = Inr (0, 0, 0)"
    by (simp_all add: seed_position_def large_cluster_def demo_externals_def)
  have A: "select demo_externals 120 None 1000000000 0 None None [(4, large_cluster)] [] =
     ([Solve large_cluster None None (0, 0, 0)],
      Inr (Some ((1, 2, 3), None, 100000000, 4, large_cluster)))"
    using no_covariance_accepted [where elapsed = 120 and n = 4 and lrd = 0
        and E = demo_externals and lrp = None and lrv = 1000000000 and alt = None
        and err = None and c = large_cluster and seed = "(0, 0, 0)" and ecef = "(1, 2, 3)"
        and rest = "[]" and made = "[]"] sp srt
    by (simp add: demo_externals_def)
  have B: "select demo_externals 1 (Some (0, 0, 0)) 100 3 None None [(4, large_cluster)] [] =
     ([Solve large_cluster None None (0, 0, 0)], Inr None)"
    using no_covariance_accepted [where elapsed = 1 and n = 4 and lrd = 3
        and E = demo_externals and lrp = "Some (0, 0, 0)" and lrv = 100 and alt = None
        and err = None and c = large_cluster and seed = "(0, 0, 0)" and ecef = "(1, 2, 3)"
        and rest = "[]" and made = "[]"] sp srt
    by (simp add: demo_externals_def)
  have C: "snd (commit demo_externals 115 demo_tracker demo_group demo_decoded demo_aircraft None None
          ((1, 2, 3), None, 100000000, 4, large_cluster)) = None \<and>
   outputs (fst (commit demo_externals 115 demo_tracker demo_group demo_decoded demo_aircraft
                   None None ((1, 2, 3), None, 100000000, 4, large_cluster))) =
     [(0, 7, (1, 2, 3), None, [4, 3, 2, 1], 4,
       [(0, large_cluster, None, None, (1, 2, 3), None, 4)])]"
    using no_covariance_accepted [where s = demo_tracker and E = demo_externals and now = 115
        and grp = demo_group and dec = demo_decoded and ac = demo_aircraft and alt = None
        and err = None and ecef = "(1, 2, 3)" and n = 4 and cl = large_cluster]
    by (simp add: demo_externals_def demo_tracker_def idle_tracker_def demo_group_def
          demo_decoded_def demo_aircraft_def large_cluster_def)
  have D: "map_option ac_last_result_var
     (aircraft (fst (resolve demo_externals 115 demo_tracker demo_group)) 7) = Some 100000000"
    by (simp add: demo_run)
  from A B C D show ?thesis by simp
qed

end
